theory Spec2Isabelle
  imports Complex_Main "HOL-Library.Sublist"
begin

section \<open>Python text\<close>

text \<open>
  A Python \<open>str\<close> is a sequence of code points, here a list of natural numbers.  The
  texts that are written in the program are ASCII apart from a few pictographs; \<open>lit\<close>
  gives the code points of an ASCII text.

  Some operations consult the Unicode character database: \<open>str.upper\<close>, \<open>str.lower\<close>,
  \<open>str.strip\<close>, and in \<open>re\<close> the classes \<open>\s\<close> and \<open>\d\<close> and the flag
  \<open>IGNORECASE\<close>.  They are written out for the code points below 128.  For all other
  code points the database is a parameter, a record of four functions about which nothing
  is assumed:
  \<^item> \<open>kind_of c\<close> tells whether \<open>c\<close> is whitespace (\<open>str.isspace\<close>, \<open>\s\<close>) or a
    decimal digit (\<open>\d\<close>); no code point is both;
  \<^item> \<open>lower_of s i\<close> is what \<open>s.lower()\<close> puts in the place of the code point at
    index \<open>i\<close> of \<open>s\<close> (it can be several code points, and for a capital sigma it
    depends on the neighbours);
  \<^item> \<open>upper_of c\<close> is what \<open>str.upper\<close> puts in the place of \<open>c\<close>;
  \<^item> \<open>ignorecase_eq c p\<close> tells whether \<open>c\<close> matches the ASCII letter \<open>p\<close> of a
    pattern under \<open>re.IGNORECASE\<close> (the long s matches \<open>s\<close>, the Kelvin sign \<open>k\<close>).
\<close>

type_synonym str = "nat list"

definition ord :: "char \<Rightarrow> nat" where
  "ord c = of_char c"

definition lit :: "string \<Rightarrow> str" where
  "lit s = map ord s"

datatype char_kind = Whitespace | DecimalDigit | OtherKind

record unicode_data =
  kind_of :: "nat \<Rightarrow> char_kind"
  lower_of :: "str \<Rightarrow> nat \<Rightarrow> str"
  upper_of :: "nat \<Rightarrow> str"
  ignorecase_eq :: "nat \<Rightarrow> nat \<Rightarrow> bool"

definition ascii_upper :: "nat \<Rightarrow> nat" where
  "ascii_upper c = (if 97 \<le> c \<and> c \<le> 122 then c - 32 else c)"

definition ascii_lower :: "nat \<Rightarrow> nat" where
  "ascii_lower c = (if 65 \<le> c \<and> c \<le> 90 then c + 32 else c)"

definition upper :: "unicode_data \<Rightarrow> str \<Rightarrow> str" where
  "upper u s = concat (map (\<lambda>c. if c < 128 then [ascii_upper c] else upper_of u c) s)"

text \<open>\<open>lower_from u s i cs\<close>: the lower case of the rest \<open>cs\<close> of \<open>s\<close> from index \<open>i\<close> on.\<close>

fun lower_from :: "unicode_data \<Rightarrow> str \<Rightarrow> nat \<Rightarrow> str \<Rightarrow> str" where
  "lower_from u s i [] = []"
| "lower_from u s i (c # cs) =
     (if c < 128 then [ascii_lower c] else lower_of u s i) @ lower_from u s (Suc i) cs"

definition lower :: "unicode_data \<Rightarrow> str \<Rightarrow> str" where
  "lower u s = lower_from u s 0 s"

definition is_space :: "unicode_data \<Rightarrow> nat \<Rightarrow> bool" where
  "is_space u c =
     (if c < 128 then c \<in> set [9, 10, 11, 12, 13, 28, 29, 30, 31, 32]
      else kind_of u c = Whitespace)"

definition is_digit :: "unicode_data \<Rightarrow> nat \<Rightarrow> bool" where
  "is_digit u c = (if c < 128 then 48 \<le> c \<and> c \<le> 57 else kind_of u c = DecimalDigit)"

definition strip :: "unicode_data \<Rightarrow> str \<Rightarrow> str" where
  "strip u s = rev (dropWhile (is_space u) (rev (dropWhile (is_space u) s)))"

fun startswith :: "str \<Rightarrow> str \<Rightarrow> bool" where
  "startswith s [] = True"
| "startswith [] (p # ps) = False"
| "startswith (c # cs) (p # ps) = (c = p \<and> startswith cs ps)"

text \<open>\<open>contains s sub\<close> is Python's \<open>sub in s\<close>.\<close>

fun contains :: "str \<Rightarrow> str \<Rightarrow> bool" where
  "contains [] sub = (sub = [])"
| "contains (c # cs) sub = (startswith (c # cs) sub \<or> contains cs sub)"

text \<open>\<open>str.find\<close> and \<open>str.rfind\<close> for a one-character needle: an index, or \<open>-1\<close>.\<close>

definition find_char :: "str \<Rightarrow> nat \<Rightarrow> int" where
  "find_char s c =
     (if c \<in> set s then int (length (takeWhile (\<lambda>x. x \<noteq> c) s)) else - 1)"

definition rfind_char :: "str \<Rightarrow> nat \<Rightarrow> int" where
  "rfind_char s c =
     (if c \<in> set s
      then int (length s) - 1 - int (length (takeWhile (\<lambda>x. x \<noteq> c) (rev s)))
      else - 1)"

text \<open>The slice \<open>s[i:j]\<close> for indices that are not negative.\<close>

definition slice :: "str \<Rightarrow> int \<Rightarrow> int \<Rightarrow> str" where
  "slice s i j = drop (nat i) (take (nat j) s)"

text \<open>\<open>last_n n xs\<close> is \<open>xs[-n:]\<close> for a positive \<open>n\<close>.\<close>

definition last_n :: "nat \<Rightarrow> 'a list \<Rightarrow> 'a list" where
  "last_n n xs = drop (length xs - n) xs"

fun join :: "str \<Rightarrow> str list \<Rightarrow> str" where
  "join sep [] = []"
| "join sep [x] = x"
| "join sep (x # y # ys) = x @ sep @ join sep (y # ys)"

text \<open>\<open>str\<close> of a number that is not negative: its decimal digits, \<open>0\<close> being code point 48.\<close>

fun show_nat :: "nat \<Rightarrow> str" where
  "show_nat n =
     (if n < 10 then [48 + n]
      else show_nat (n div 10) @ [48 + n mod 10])"

declare show_nat.simps [simp del]

definition show_int :: "int \<Rightarrow> str" where
  "show_int i = (if i < 0 then ord CHR ''-'' # show_nat (nat (- i)) else show_nat (nat i))"

text \<open>\<open>enumerate(xs, k)\<close>.\<close>

fun enumerate_from :: "nat \<Rightarrow> 'a list \<Rightarrow> (nat \<times> 'a) list" where
  "enumerate_from k [] = []"
| "enumerate_from k (x # xs) = (k, x) # enumerate_from (Suc k) xs"

section \<open>Agent state (memory/state.py)\<close>

datatype json =
    JNull
  | JBool bool
  | JNum str
  | JStr str
  | JArr "json list"
  | JObj "(str \<times> json) list"

record SearchResult =
  question :: str
  answer :: str
  sources :: "str list"
  timestamp :: str
  score :: real

record AgentState =
  query :: str
  brief :: str
  plan :: json
  search_history :: "SearchResult list"
  draft_report :: str
  revision_count :: int
  final_report :: str
  metadata :: "(str \<times> json) list"

text \<open>
  \<open>AgentState(query=address, brief=brief)\<close>: the dataclass defaults of the other fields.
\<close>

definition new_AgentState :: "str \<Rightarrow> str \<Rightarrow> AgentState" where
  "new_AgentState q b =
     \<lparr>query = q, brief = b, plan = JObj [], search_history = [], draft_report = [],
      revision_count = 0, final_report = [], metadata = []\<rparr>"

text \<open>
  \<open>add_search_result\<close>.  The record's \<open>timestamp\<close> default reads the clock when the
  \<open>SearchResult\<close> is built; the reading is the argument \<open>ts\<close>.  \<open>sources or []\<close> turns
  \<open>None\<close> into the empty list.
\<close>

definition add_search_result ::
  "AgentState \<Rightarrow> str \<Rightarrow> str \<Rightarrow> str list option \<Rightarrow> str \<Rightarrow> AgentState" where
  "add_search_result st q a srcs ts =
     st\<lparr>search_history := search_history st @
          [\<lparr>question = q, answer = a,
            sources = (case srcs of None \<Rightarrow> [] | Some ss \<Rightarrow> ss),
            timestamp = ts, score = 0\<rparr>]\<rparr>"

definition update_draft :: "AgentState \<Rightarrow> str \<Rightarrow> AgentState" where
  "update_draft st new_draft =
     st\<lparr>draft_report := new_draft, revision_count := revision_count st + 1\<rparr>"

section \<open>External services and library functions\<close>

text \<open>
  A model call is \<open>(prompt | model).invoke(slots).content\<close>: the two message templates
  of the \<open>ChatPromptTemplate\<close> and the values of its named slots go out, a text comes
  back.
\<close>

record request =
  system_msg :: string
  user_msg :: string
  slots :: "(string \<times> str) list"

text \<open>One hit of the vector store: a document's text and metadata, and its score.\<close>

record raw_doc =
  page_content :: str
  doc_metadata :: "(str \<times> str) list"
  similarity :: real

text \<open>
  Every call of a service is written to a log together with its reply.  A service's reply
  may depend on everything that happened before, so each service is a function of the
  log so far: any sequence of replies is the behaviour of some environment.  The library
  functions the code calls (\<open>json.loads\<close>, \<open>float\<close>, \<open>str\<close> of a decoded value, and
  the Unicode database \<open>ucd\<close>) are not part of the repository and are fields of the
  environment too; \<open>json_loads\<close> gives
  \<open>None\<close> where \<open>json.loads\<close> raises \<open>JSONDecodeError\<close>.  A service call that fails
  in transport is outside the model, except the retrieval call, whose failure (\<open>None\<close>)
  the code catches.
\<close>

datatype event =
    Generated request str
  | Searched str str
  | Retrieved str int "raw_doc list option"
  | ClockRead str

record env =
  llm :: "event list \<Rightarrow> request \<Rightarrow> str"
  web_search_tool :: "event list \<Rightarrow> str \<Rightarrow> str"
  vector_store :: "(event list \<Rightarrow> str \<Rightarrow> int \<Rightarrow> raw_doc list option) option"
  clock :: "event list \<Rightarrow> str"
  json_loads :: "str \<Rightarrow> json option"
  float_of :: "str \<Rightarrow> real"
  str_of :: "json \<Rightarrow> str"
  ucd :: unicode_data

definition invoke_model :: "env \<Rightarrow> request \<Rightarrow> event list \<Rightarrow> str \<times> event list" where
  "invoke_model e r lg = (let c = llm e lg r in (c, lg @ [Generated r c]))"

text \<open>\<open>web_search_tool.invoke({"query": q})\<close>; the reply is read through \<open>str\<close> only.\<close>

definition invoke_search :: "env \<Rightarrow> str \<Rightarrow> event list \<Rightarrow> str \<times> event list" where
  "invoke_search e q lg = (let r = web_search_tool e lg q in (r, lg @ [Searched q r]))"

definition read_clock :: "env \<Rightarrow> event list \<Rightarrow> str \<times> event list" where
  "read_clock e lg = (let t = clock e lg in (t, lg @ [ClockRead t]))"

section \<open>Retriever (retrieval/retriever.py)\<close>

record kb_doc =
  kb_content :: str
  kb_source :: str
  kb_name :: str
  kb_provider :: str
  kb_notes :: str
  kb_score :: real

definition metadata_get :: "(str \<times> str) list \<Rightarrow> str \<Rightarrow> str \<Rightarrow> str" where
  "metadata_get m k d = (case map_of m k of Some v \<Rightarrow> v | None \<Rightarrow> d)"

definition to_kb_doc :: "raw_doc \<Rightarrow> kb_doc" where
  "to_kb_doc d =
     \<lparr>kb_content = page_content d,
      kb_source = metadata_get (doc_metadata d) (lit ''source'') (lit ''Unknown''),
      kb_name = metadata_get (doc_metadata d) (lit ''name'') (lit ''Unknown''),
      kb_provider = metadata_get (doc_metadata d) (lit ''provider'') [],
      kb_notes = metadata_get (doc_metadata d) (lit ''notes'') [],
      kb_score = similarity d\<rparr>"

text \<open>\<open>ChromaRetriever.retrieve\<close>; \<open>None\<close> when the similarity search raises.\<close>

definition retrieve ::
  "(event list \<Rightarrow> str \<Rightarrow> int \<Rightarrow> raw_doc list option) \<Rightarrow> str \<Rightarrow> int \<Rightarrow> event list
     \<Rightarrow> kb_doc list option \<times> event list" where
  "retrieve vs q top_k lg =
     (let r = vs lg q top_k in (map_option (map to_kb_doc) r, lg @ [Retrieved q top_k r]))"

section \<open>Evaluator (refinement/evaluator.py)\<close>

text \<open>
  \<open>re.IGNORECASE\<close>: whether the code point \<open>c\<close> of the text matches the character
  \<open>p\<close> of a pattern, \<open>p\<close> being ASCII.  A letter matches its two cases and what the
  database adds to them; any other character matches itself only.
\<close>

definition is_ascii_letter :: "nat \<Rightarrow> bool" where
  "is_ascii_letter p = (65 \<le> p \<and> p \<le> 90 \<or> 97 \<le> p \<and> p \<le> 122)"

definition ignorecase_match :: "unicode_data \<Rightarrow> nat \<Rightarrow> nat \<Rightarrow> bool" where
  "ignorecase_match u c p =
     (if c < 128 then ascii_lower c = ascii_lower p
      else is_ascii_letter p \<and> ignorecase_eq u c p)"

text \<open>Matching a literal at the start of a text under \<open>re.IGNORECASE\<close>.\<close>

fun startswith_ci :: "unicode_data \<Rightarrow> str \<Rightarrow> str \<Rightarrow> bool" where
  "startswith_ci u s [] = True"
| "startswith_ci u [] (p # ps) = False"
| "startswith_ci u (c # cs) (p # ps) = (ignorecase_match u c p \<and> startswith_ci u cs ps)"

text \<open>
  The pattern \<open>Score:\s*(\d+(?:\.\d+)?)\<close> tried at the start of \<open>s\<close>; the result is
  group 1.  Whitespace and digits are disjoint classes, so the greedy \<open>\s*\<close> and
  \<open>\d+\<close> never have to give characters back.
\<close>

definition match_score :: "unicode_data \<Rightarrow> str \<Rightarrow> str option" where
  "match_score u s =
     (if startswith_ci u s (lit ''Score:'') then
        (let r = dropWhile (is_space u) (drop 6 s);
             ds = takeWhile (is_digit u) r;
             r2 = dropWhile (is_digit u) r
         in if ds = [] then None
            else (case r2 of
                    [] \<Rightarrow> Some ds
                  | c # r3 \<Rightarrow>
                      (if c = ord CHR ''.'' \<and> takeWhile (is_digit u) r3 \<noteq> []
                       then Some (ds @ ord CHR ''.'' # takeWhile (is_digit u) r3)
                       else Some ds)))
      else None)"

text \<open>\<open>re.search\<close>: the match at the leftmost position that has one.\<close>

fun search_score :: "unicode_data \<Rightarrow> str \<Rightarrow> str option" where
  "search_score u [] = match_score u []"
| "search_score u (c # cs) =
     (case match_score u (c # cs) of Some g \<Rightarrow> Some g | None \<Rightarrow> search_score u cs)"

definition extract_score :: "env \<Rightarrow> str \<Rightarrow> real" where
  "extract_score e content_text =
     (case search_score (ucd e) content_text of Some g \<Rightarrow> float_of e g | None \<Rightarrow> 5)"

text \<open>
  The pattern \<open>Feedback:\s*(.+)\<close> under \<open>re.DOTALL\<close>, tried at the start of \<open>s\<close>.
  The greedy \<open>\s*\<close> takes all leading whitespace and \<open>.+\<close> the rest to the end of the
  text; when nothing but whitespace follows the label, \<open>\s*\<close> gives its last character
  back to \<open>.+\<close>.
\<close>

definition match_feedback :: "unicode_data \<Rightarrow> str \<Rightarrow> str option" where
  "match_feedback u s =
     (if startswith_ci u s (lit ''Feedback:'') then
        (let rest = drop 9 s; r = dropWhile (is_space u) rest
         in if r \<noteq> [] then Some r
            else if rest \<noteq> [] then Some [last rest]
            else None)
      else None)"

fun search_feedback :: "unicode_data \<Rightarrow> str \<Rightarrow> str option" where
  "search_feedback u [] = match_feedback u []"
| "search_feedback u (c # cs) =
     (case match_feedback u (c # cs) of Some g \<Rightarrow> Some g | None \<Rightarrow> search_feedback u cs)"

definition extract_feedback :: "env \<Rightarrow> str \<Rightarrow> str" where
  "extract_feedback e content_text =
     (case search_feedback (ucd e) content_text of
        Some g \<Rightarrow> strip (ucd e) g
      | None \<Rightarrow> content_text)"

definition evaluate_answer_system :: string where
  "evaluate_answer_system =
     ''Expert evaluator. Rate answer on: Helpfulness, Accuracy, Completeness. Format: 'Score: X\<newline>Feedback: ...'' @ [CHR 0x27]"

definition evaluate_answer_request :: "str \<Rightarrow> str \<Rightarrow> request" where
  "evaluate_answer_request q a =
     \<lparr>system_msg = evaluate_answer_system,
      user_msg = ''Question: {question}\<newline>Answer: {answer}'',
      slots = [(''question'', q), (''answer'', a)]\<rparr>"

definition evaluate_answer ::
  "env \<Rightarrow> str \<Rightarrow> str \<Rightarrow> event list \<Rightarrow> (real \<times> str) \<times> event list" where
  "evaluate_answer e q a lg =
     (case invoke_model e (evaluate_answer_request q a) lg of
        (c, lg1) \<Rightarrow> ((extract_score e c, extract_feedback e c), lg1))"

definition evaluate_report_request :: "str \<Rightarrow> str \<Rightarrow> request" where
  "evaluate_report_request q report =
     \<lparr>system_msg = ''Expert evaluator. Rate feasibility report on: Comprehensiveness, Professional Quality, Actionability. Format: 'Score: X\<newline>Feedback: ...'' @ [CHR 0x27],
      user_msg = ''Query: {query}\<newline>Report:\<newline>{report}'',
      slots = [(''query'', q), (''report'', report)]\<rparr>"

definition evaluate_report ::
  "env \<Rightarrow> str \<Rightarrow> str \<Rightarrow> event list \<Rightarrow> (real \<times> str) \<times> event list" where
  "evaluate_report e q report lg =
     (case invoke_model e (evaluate_report_request q report) lg of
        (c, lg1) \<Rightarrow> ((extract_score e c, extract_feedback e c), lg1))"

section \<open>Self-evolution (refinement/self_evolution.py)\<close>

definition generate_variants_request :: "str \<Rightarrow> str \<Rightarrow> request" where
  "generate_variants_request q initial_answer =
     \<lparr>system_msg = ''Generate diverse, comprehensive answer. Focus on different aspects than previous.'',
      user_msg = ''Question: {question}\<newline>Initial: {initial_answer}'',
      slots = [(''question'', q), (''initial_answer'', initial_answer)]\<rparr>"

text \<open>The comprehension over \<open>range(num_variants)\<close>: one model call per variant.\<close>

fun generate_variants_loop ::
  "env \<Rightarrow> str \<Rightarrow> str \<Rightarrow> nat \<Rightarrow> event list \<Rightarrow> str list \<times> event list" where
  "generate_variants_loop e q initial_answer 0 lg = ([], lg)"
| "generate_variants_loop e q initial_answer (Suc n) lg =
     (case invoke_model e (generate_variants_request q initial_answer) lg of
        (v, lg1) \<Rightarrow>
          (case generate_variants_loop e q initial_answer n lg1 of
             (vs, lg2) \<Rightarrow> (v # vs, lg2)))"

definition generate_variants ::
  "env \<Rightarrow> str \<Rightarrow> str \<Rightarrow> int \<Rightarrow> event list \<Rightarrow> str list \<times> event list" where
  "generate_variants e q initial_answer num_variants lg =
     generate_variants_loop e q initial_answer (nat num_variants) lg"

definition revise_system :: string where
  "revise_system = ''Improve answer based on feedback.''"

definition revise_request :: "str \<Rightarrow> str \<Rightarrow> str \<Rightarrow> request" where
  "revise_request q a feedback =
     \<lparr>system_msg = revise_system,
      user_msg = ''Question: {question}\<newline>Answer: {answer}\<newline>Feedback: {feedback}\<newline>\<newline>Improved:'',
      slots = [(''question'', q), (''answer'', a), (''feedback'', feedback)]\<rparr>"

definition revise_with_feedback ::
  "env \<Rightarrow> str \<Rightarrow> str \<Rightarrow> str \<Rightarrow> event list \<Rightarrow> str \<times> event list" where
  "revise_with_feedback e q a feedback lg = invoke_model e (revise_request q a feedback) lg"

text \<open>
  The loop of \<open>_evolve_variant\<close> over \<open>range(num_iterations)\<close>, by the number of rounds
  left; \<open>break\<close> returns the current text.
\<close>

fun evolve_variant_loop ::
  "env \<Rightarrow> str \<Rightarrow> nat \<Rightarrow> str \<Rightarrow> event list \<Rightarrow> str \<times> event list" where
  "evolve_variant_loop e q 0 current lg = (current, lg)"
| "evolve_variant_loop e q (Suc n) current lg =
     (case evaluate_answer e q current lg of
        ((sc, feedback), lg1) \<Rightarrow>
          (if sc \<ge> 8 then (current, lg1)
           else (case revise_with_feedback e q current feedback lg1 of
                   (revised, lg2) \<Rightarrow> evolve_variant_loop e q n revised lg2)))"

definition evolve_variant ::
  "env \<Rightarrow> str \<Rightarrow> str \<Rightarrow> int \<Rightarrow> event list \<Rightarrow> str \<times> event list" where
  "evolve_variant e q variant num_iterations lg =
     evolve_variant_loop e q (nat num_iterations) variant lg"

fun evolve_variants ::
  "env \<Rightarrow> str \<Rightarrow> str list \<Rightarrow> int \<Rightarrow> event list \<Rightarrow> str list \<times> event list" where
  "evolve_variants e q [] num_iterations lg = ([], lg)"
| "evolve_variants e q (v # vs) num_iterations lg =
     (case evolve_variant e q v num_iterations lg of
        (v', lg1) \<Rightarrow>
          (case evolve_variants e q vs num_iterations lg1 of
             (vs', lg2) \<Rightarrow> (v' # vs', lg2)))"

definition merge_request :: "str \<Rightarrow> str list \<Rightarrow> request" where
  "merge_request q variants =
     \<lparr>system_msg = ''Merge candidate answers into comprehensive answer. Combine best info, reconcile conflicts.'',
      user_msg = ''Question: {question}\<newline>Candidates:\<newline>{variants}'',
      slots = [(''question'', q),
               (''variants'',
                join (lit ''\<newline>\<newline>---\<newline>\<newline>'')
                  (map (\<lambda>iv. (lit ''Variant '') @ show_nat (fst iv + 1) @ (lit '':\<newline>'') @ snd iv)
                     (enumerate_from 0 variants)))]\<rparr>"

definition merge_variants ::
  "env \<Rightarrow> str \<Rightarrow> str list \<Rightarrow> event list \<Rightarrow> str \<times> event list" where
  "merge_variants e q variants lg = invoke_model e (merge_request q variants) lg"

definition evolve_answer ::
  "env \<Rightarrow> str \<Rightarrow> str \<Rightarrow> int \<Rightarrow> int \<Rightarrow> event list \<Rightarrow> str \<times> event list" where
  "evolve_answer e q initial_answer num_variants num_iterations lg =
     (case generate_variants e q initial_answer num_variants lg of
        (variants, lg1) \<Rightarrow>
          (case evolve_variants e q variants num_iterations lg1 of
             (evolved_variants, lg2) \<Rightarrow> merge_variants e q evolved_variants lg2))"

section \<open>Reading the log\<close>

text \<open>Which calls of a log are judge calls and revision calls, and what a judge call saw.\<close>

definition is_evaluation :: "event \<Rightarrow> bool" where
  "is_evaluation ev =
     (case ev of Generated r c \<Rightarrow> system_msg r = evaluate_answer_system | _ \<Rightarrow> False)"

definition is_revision :: "event \<Rightarrow> bool" where
  "is_revision ev =
     (case ev of Generated r c \<Rightarrow> system_msg r = revise_system | _ \<Rightarrow> False)"

definition observed_score :: "env \<Rightarrow> event \<Rightarrow> real" where
  "observed_score e ev = (case ev of Generated r c \<Rightarrow> extract_score e c | _ \<Rightarrow> 5)"

definition judged_answer :: "event \<Rightarrow> str option" where
  "judged_answer ev =
     (case ev of Generated r c \<Rightarrow> map_of (slots r) ''answer'' | _ \<Rightarrow> None)"

text \<open>
  The evaluate-revise rounds of the specification, read in the events \<open>tr\<close> that a run
  adds to the log \<open>lg\<close>.  With no round left there is no event and the result is the
  current text.  Otherwise the first event is the judge's call on the current text, with the
  model's reply to it.  If the score in the reply is 8.0 or more, nothing follows and the
  result is the current text.  If not, the next event is the revision call for the current
  text with the feedback of the reply, and the rounds go on, one fewer, with the text that
  the revision call returned as the current text.
\<close>

fun evolution_rounds ::
  "env \<Rightarrow> str \<Rightarrow> str \<Rightarrow> nat \<Rightarrow> event list \<Rightarrow> event list \<Rightarrow> str \<Rightarrow> bool" where
  "evolution_rounds e q current 0 lg tr r = (tr = [] \<and> r = current)"
| "evolution_rounds e q current (Suc n) lg tr r =
     (case tr of
        Generated rq c # rest \<Rightarrow>
          rq = evaluate_answer_request q current \<and> c = llm e lg rq \<and>
          (if extract_score e c \<ge> 8 then rest = [] \<and> r = current
           else (case rest of
                   Generated rq1 c1 # rest1 \<Rightarrow>
                     rq1 = revise_request q current (extract_feedback e c)
                     \<and> c1 = llm e (lg @ [Generated rq c]) rq1
                     \<and> evolution_rounds e q c1 n (lg @ [Generated rq c, Generated rq1 c1]) rest1 r
                 | _ \<Rightarrow> False))
      | _ \<Rightarrow> False)"

text \<open>
  Whether a text holds a label somewhere, in any case that \<open>re.IGNORECASE\<close> accepts.
\<close>

fun contains_ci :: "unicode_data \<Rightarrow> str \<Rightarrow> str \<Rightarrow> bool" where
  "contains_ci u [] p = (p = [])"
| "contains_ci u (c # cs) p = (startswith_ci u (c # cs) p \<or> contains_ci u cs p)"

text \<open>The sample response of the specification.\<close>

definition sample_judgement :: str where
  "sample_judgement = lit ''Score: 7.5\<newline>Feedback: looks good''"

section \<open>A sample environment\<close>

text \<open>
  The value of a decimal numeral \<open>digits\<close> or \<open>digits.digits\<close>, the number that
  \<open>float\<close> rounds to the nearest double.
\<close>

definition digits_value :: "str \<Rightarrow> nat" where
  "digits_value s = foldl (\<lambda>a c. 10 * a + (c - 48)) 0 s"

definition decimal_value :: "str \<Rightarrow> real" where
  "decimal_value s =
     (let ip = takeWhile (\<lambda>c. c \<noteq> ord CHR ''.'') s;
          fp = drop 1 (dropWhile (\<lambda>c. c \<noteq> ord CHR ''.'') s)
      in real (digits_value ip) + real (digits_value fp) / 10 ^ length fp)"


text \<open>
  The database on the code points of the sample runs: beyond ASCII they hold only the
  pictographs of the status messages, which are neither whitespace nor digits and have no
  case.
\<close>

definition sample_ucd :: unicode_data where
  "sample_ucd =
     \<lparr>kind_of = (\<lambda>c. OtherKind), lower_of = (\<lambda>s i. [s ! i]), upper_of = (\<lambda>c. [c]),
      ignorecase_eq = (\<lambda>c p. False)\<rparr>"

text \<open>
  An environment for concrete runs.  Its model is the parameter \<open>reply\<close>; the search
  tool echoes the query, there is no retriever, and the clock stands still.  The decoder
  is given on the texts the runs below use: it accepts \<open>{}\<close> and rejects the other
  texts, none of which is JSON.  \<open>str\<close> of a decoded value that is not a text is not
  reached in these runs.
\<close>

definition sample_json_loads :: "str \<Rightarrow> json option" where
  "sample_json_loads s = (if s = (lit ''{}'') then Some (JObj []) else None)"

definition sample_env :: "(event list \<Rightarrow> request \<Rightarrow> str) \<Rightarrow> env" where
  "sample_env reply =
     \<lparr>llm = reply,
      web_search_tool = (\<lambda>lg q. (lit ''results for '') @ q),
      vector_store = None,
      clock = (\<lambda>lg. (lit ''2024-01-01T00:00:00'')),
      json_loads = sample_json_loads,
      float_of = decimal_value,
      str_of = (\<lambda>v. []),
      ucd = sample_ucd\<rparr>"

text \<open>
  A judge that gives 5 to the first text it sees and 9 to every later one, with a reviser
  that answers \<open>better\<close>.
\<close>

definition judge_reply :: "event list \<Rightarrow> request \<Rightarrow> str" where
  "judge_reply lg r =
     (if system_msg r = revise_system then lit ''better''
      else if lg = [] then lit ''Score: 5\<newline>Feedback: add detail''
      else lit ''Score: 9\<newline>Feedback: fine'')"

definition judging_env :: env where
  "judging_env = sample_env judge_reply"

section \<open>Errors and decoded values\<close>

datatype error = JSONDecodeError | AttributeError | TypeError

text \<open>
  \<open>d.get(k, default)\<close>: only a dict has the method.  The decoder gives a dict one
  binding for each key.
\<close>

definition dict_get :: "json \<Rightarrow> str \<Rightarrow> json \<Rightarrow> error + json" where
  "dict_get d k dflt =
     (case d of
        JObj kvs \<Rightarrow> Inr (case map_of kvs k of Some v \<Rightarrow> v | None \<Rightarrow> dflt)
      | _ \<Rightarrow> Inl AttributeError)"

text \<open>Iterating a decoded value: a list's items, a text's characters, a dict's keys.\<close>

definition iterate :: "json \<Rightarrow> error + json list" where
  "iterate v =
     (case v of
        JArr xs \<Rightarrow> Inr xs
      | JStr s \<Rightarrow> Inr (map (\<lambda>c. JStr [c]) s)
      | JObj kvs \<Rightarrow> Inr (map (\<lambda>kv. JStr (fst kv)) kvs)
      | _ \<Rightarrow> Inl TypeError)"

text \<open>
  \<open>v[:3]\<close> and then iterating it: lists and texts can be sliced; a dict and the scalars
  cannot (for a dict Python 3.12 reports the failed slice as a \<open>KeyError\<close>).
\<close>

definition first_three :: "json \<Rightarrow> error + json list" where
  "first_three v =
     (case v of
        JArr xs \<Rightarrow> Inr (take 3 xs)
      | JStr s \<Rightarrow> Inr (map (\<lambda>c. JStr [c]) (take 3 s))
      | _ \<Rightarrow> Inl TypeError)"

text \<open>\<open>len(v)\<close>.\<close>

definition py_len :: "json \<Rightarrow> error + nat" where
  "py_len v =
     (case v of
        JArr xs \<Rightarrow> Inr (length xs)
      | JStr s \<Rightarrow> Inr (length s)
      | JObj kvs \<Rightarrow> Inr (length kvs)
      | _ \<Rightarrow> Inl TypeError)"

text \<open>A decoded value inside an f-string: a text stands for itself.\<close>

definition py_str :: "env \<Rightarrow> json \<Rightarrow> str" where
  "py_str e v = (case v of JStr s \<Rightarrow> s | _ \<Rightarrow> str_of e v)"

section \<open>Planner (planner/planner.py)\<close>

definition planner_system :: string where
  "planner_system =
     ''Expert real estate analyst. Generate comprehensive research plan covering: Site Context, Zoning, Environmental, Infrastructure, Market, Opportunities, Risks. Output JSON with 'sections' array containing objects with 'title' and 'questions' fields.''"

definition default_plan :: "str \<Rightarrow> json" where
  "default_plan q =
     JObj [((lit ''sections''),
            JArr [JObj [((lit ''title''), JStr (lit ''General Research'')),
                        ((lit ''questions''), JArr [JStr q])]])]"

definition plan_request :: "str \<Rightarrow> request" where
  "plan_request full_query =
     \<lparr>system_msg = planner_system, user_msg = ''{query}'',
      slots = [(''query'', full_query)]\<rparr>"

text \<open>
  \<open>generate_plan\<close>.  The second \<open>json.loads\<close> stands inside the \<open>except\<close> block, so a
  \<open>JSONDecodeError\<close> it raises leaves the function.
\<close>

definition generate_plan ::
  "env \<Rightarrow> str \<Rightarrow> str \<Rightarrow> event list \<Rightarrow> (error + json) \<times> event list" where
  "generate_plan e q b lg =
     (let full_query = (lit ''Address: '') @ q @ (if b \<noteq> [] then (lit ''\<newline>Brief: '') @ b else [])
      in case invoke_model e (plan_request full_query) lg of
           (c, lg1) \<Rightarrow>
             (case json_loads e c of
                Some v \<Rightarrow> (Inr v, lg1)
              | None \<Rightarrow>
                  (let start = find_char c (ord CHR ''{'');
                       end_ix = rfind_char c (ord CHR ''}'') + 1
                   in if start \<noteq> - 1 \<and> end_ix > start
                      then (case json_loads e (slice c start end_ix) of
                              Some v \<Rightarrow> (Inr v, lg1)
                            | None \<Rightarrow> (Inl JSONDecodeError, lg1))
                      else (Inr (default_plan q), lg1))))"

section \<open>The agent (agents/ttd\_dr\_agent.py)\<close>

text \<open>
  The agent's settings.  The model name and temperature configure the model service, and
  the retriever is the environment's \<open>vector_store\<close> (\<open>None\<close> when the manifest is
  missing).  Printing is not modelled.
\<close>

record TTDDRAgent =
  max_search_steps :: int
  use_self_evolution :: bool
  use_diffusion :: bool

definition format_section :: "env \<Rightarrow> nat \<times> json \<Rightarrow> error + str list" where
  "format_section e p =
     (case dict_get (snd p) (lit ''title'') (JStr (lit ''Section'')) of
        Inl x \<Rightarrow> Inl x
      | Inr title \<Rightarrow>
          (case dict_get (snd p) (lit ''questions'') (JArr []) of
             Inl x \<Rightarrow> Inl x
           | Inr qs \<Rightarrow>
               (case first_three qs of
                  Inl x \<Rightarrow> Inl x
                | Inr qs3 \<Rightarrow>
                    Inr ((show_nat (fst p) @ (lit ''. '') @ py_str e title)
                         # map (\<lambda>q. (lit ''   - '') @ py_str e q) qs3))))"

fun format_sections :: "env \<Rightarrow> (nat \<times> json) list \<Rightarrow> error + str list" where
  "format_sections e [] = Inr []"
| "format_sections e (p # ps) =
     (case format_section e p of
        Inl x \<Rightarrow> Inl x
      | Inr ls \<Rightarrow>
          (case format_sections e ps of
             Inl x \<Rightarrow> Inl x
           | Inr ls' \<Rightarrow> Inr (ls @ ls')))"

definition format_plan :: "env \<Rightarrow> json \<Rightarrow> error + str" where
  "format_plan e p =
     (case dict_get p (lit ''sections'') (JArr []) of
        Inl x \<Rightarrow> Inl x
      | Inr secs \<Rightarrow>
          (case iterate secs of
             Inl x \<Rightarrow> Inl x
           | Inr ss \<Rightarrow>
               (case format_sections e (enumerate_from 1 ss) of
                  Inl x \<Rightarrow> Inl x
                | Inr ls \<Rightarrow> Inr (join (lit ''\<newline>'') ls))))"

definition brief_or_default :: "str \<Rightarrow> str" where
  "brief_or_default b = (if b \<noteq> [] then b else (lit ''General feasibility assessment''))"

definition initial_draft_request :: "AgentState \<Rightarrow> str \<Rightarrow> request" where
  "initial_draft_request st p =
     \<lparr>system_msg = ''Generate an initial draft feasibility study. Use internal knowledge plus knowledge base to create a preliminary structure that will be refined through research.'',
      user_msg = ''Address: {address}\<newline>Brief: {brief}\<newline>Plan:\<newline>{plan}\<newline>\<newline>Generate initial draft.'',
      slots = [(''address'', query st), (''brief'', brief_or_default (brief st)),
               (''plan'', p)]\<rparr>"

definition generate_initial_draft ::
  "env \<Rightarrow> AgentState \<Rightarrow> event list \<Rightarrow> (error + str) \<times> event list" where
  "generate_initial_draft e st lg =
     (case format_plan e (plan st) of
        Inl x \<Rightarrow> (Inl x, lg)
      | Inr p \<Rightarrow>
          (case invoke_model e (initial_draft_request st p) lg of
             (c, lg1) \<Rightarrow> (Inr c, lg1)))"

definition question_system :: string where
  "question_system =
     ''Generate the next specific search question for the feasibility study. Consider the plan, previous questions, and current gaps. Return a focused question or 'DONE' if complete.''"

text \<open>The \<open>previous\<close> slot: the questions of \<open>search_history[-5:]\<close>, numbered from 1.\<close>

definition previous_lines :: "AgentState \<Rightarrow> str list" where
  "previous_lines st =
     map (\<lambda>ir. show_nat (fst ir + 1) @ (lit ''. '') @ question (snd ir))
       (enumerate_from 0 (last_n 5 (search_history st)))"

definition previous_questions :: "AgentState \<Rightarrow> str" where
  "previous_questions st =
     (let p = join (lit ''\<newline>'') (previous_lines st)
      in if p \<noteq> [] then p else (lit ''None''))"

definition draft_snapshot :: "AgentState \<Rightarrow> str" where
  "draft_snapshot st =
     (if draft_report st \<noteq> [] then take 500 (draft_report st) else (lit ''No draft''))"

definition search_question_request :: "AgentState \<Rightarrow> str \<Rightarrow> request" where
  "search_question_request st p =
     \<lparr>system_msg = question_system,
      user_msg = ''Address: {address}\<newline>Plan:\<newline>{plan}\<newline>Previous:\<newline>{previous}\<newline>Draft:\<newline>{draft}\<newline>\<newline>Next question:'',
      slots = [(''address'', query st), (''plan'', p),
               (''previous'', previous_questions st), (''draft'', draft_snapshot st)]\<rparr>"

definition generate_search_question ::
  "env \<Rightarrow> AgentState \<Rightarrow> event list \<Rightarrow> (error + str) \<times> event list" where
  "generate_search_question e st lg =
     (case format_plan e (plan st) of
        Inl x \<Rightarrow> (Inl x, lg)
      | Inr p \<Rightarrow>
          (case invoke_model e (search_question_request st p) lg of
             (c, lg1) \<Rightarrow> (Inr (strip (ucd e) c), lg1)))"

text \<open>
  The knowledge-base part of an answer: nothing without a retriever or when the retrieval
  raises, else the top two documents, each cut to 300 characters.
\<close>

definition kb_lookup :: "env \<Rightarrow> str \<Rightarrow> event list \<Rightarrow> str \<times> event list" where
  "kb_lookup e q lg =
     (case vector_store e of
        None \<Rightarrow> ([], lg)
      | Some vs \<Rightarrow>
          (case retrieve vs q 2 lg of
             (None, lg1) \<Rightarrow> ([], lg1)
           | (Some kb_docs, lg1) \<Rightarrow>
               (join (lit ''\<newline>\<newline>'')
                  (map (\<lambda>d. (lit ''['') @ kb_name d @ (lit '']\<newline>'') @ take 300 (kb_content d)) kb_docs),
                lg1)))"

definition answer_system :: string where
  "answer_system =
     ''Synthesize a comprehensive answer from search results. Focus on property feasibility facts.''"

definition answer_request :: "str \<Rightarrow> str \<Rightarrow> str \<Rightarrow> request" where
  "answer_request q web_results kb_results =
     \<lparr>system_msg = answer_system,
      user_msg = ''Question: {question}\<newline>\<newline>Web:\<newline>{web}\<newline>\<newline>KB:\<newline>{kb}\<newline>\<newline>Answer:'',
      slots = [(''question'', q), (''web'', take 2000 web_results),
               (''kb'', if kb_results \<noteq> [] then take 1000 kb_results else (lit ''N/A''))]\<rparr>"

definition search_and_answer ::
  "env \<Rightarrow> str \<Rightarrow> AgentState \<Rightarrow> event list \<Rightarrow> str \<times> event list" where
  "search_and_answer e q st lg =
     (case invoke_search e q lg of
        (web_results, lg1) \<Rightarrow>
          (case kb_lookup e q lg1 of
             (kb_results, lg2) \<Rightarrow>
               invoke_model e (answer_request q web_results kb_results) lg2))"

definition research_text :: "SearchResult list \<Rightarrow> str" where
  "research_text rs =
     join (lit ''\<newline>\<newline>'') (map (\<lambda>r. (lit ''Q: '') @ question r @ (lit ''\<newline>A: '') @ answer r) rs)"

definition denoise_system :: string where
  "denoise_system =
     ''Refine the draft by incorporating new research. Update facts, verify information, add details.''"

definition denoise_request :: "AgentState \<Rightarrow> request" where
  "denoise_request st =
     \<lparr>system_msg = denoise_system,
      user_msg = ''Draft:\<newline>{draft}\<newline>\<newline>Latest:\<newline>{latest}\<newline>\<newline>Refine:'',
      slots = [(''draft'', draft_report st),
               (''latest'', research_text (last_n 3 (search_history st)))]\<rparr>"

definition denoise_draft :: "env \<Rightarrow> AgentState \<Rightarrow> event list \<Rightarrow> str \<times> event list" where
  "denoise_draft e st lg = invoke_model e (denoise_request st) lg"

definition final_report_request :: "TTDDRAgent \<Rightarrow> AgentState \<Rightarrow> request" where
  "final_report_request ag st =
     \<lparr>system_msg = ''Generate a comprehensive investor-grade feasibility study. Structure: Executive Summary, Site Context, Zoning, Environmental, Infrastructure, Market, Opportunities, Risks, Recommendations. Use professional language and cite sources.'',
      user_msg = ''Address: {address}\<newline>Brief: {brief}\<newline>Research:\<newline>{research}\<newline>Draft:\<newline>{draft}\<newline>\<newline>Generate final report:'',
      slots = [(''address'', query st), (''brief'', brief_or_default (brief st)),
               (''research'', research_text (search_history st)),
               (''draft'', if use_diffusion ag then draft_report st else [])]\<rparr>"

definition generate_final_report ::
  "env \<Rightarrow> TTDDRAgent \<Rightarrow> AgentState \<Rightarrow> event list \<Rightarrow> str \<times> event list" where
  "generate_final_report e ag st lg = invoke_model e (final_report_request ag st) lg"


text \<open>
  One pass through the body of the \<open>for\<close> loop of \<open>_iterative_search_and_refine\<close> at
  index \<open>step\<close>: \<open>None\<close> is \<open>break\<close>, \<open>Some\<close> the state at the end of the pass.
\<close>

definition search_step ::
  "env \<Rightarrow> TTDDRAgent \<Rightarrow> nat \<Rightarrow> AgentState \<Rightarrow> event list
     \<Rightarrow> (error + AgentState option) \<times> event list" where
  "search_step e ag step st lg =
     (case generate_search_question e st lg of
        (Inl x, lg1) \<Rightarrow> (Inl x, lg1)
      | (Inr q, lg1) \<Rightarrow>
          if q = [] \<or> q = (lit ''DONE'') then (Inr None, lg1)
          else
            (case search_and_answer e q st lg1 of
               (a, lg2) \<Rightarrow>
                 (case (if use_self_evolution ag \<and> step mod 3 = 0
                        then evolve_answer e q a 2 1 lg2 else (a, lg2)) of
                    (a', lg3) \<Rightarrow>
                      (case read_clock e lg3 of
                         (ts, lg4) \<Rightarrow>
                           (let st1 = add_search_result st q a' None ts
                            in if use_diffusion ag
                               then (case denoise_draft e st1 lg4 of
                                       (d, lg5) \<Rightarrow> (Inr (Some (update_draft st1 d)), lg5))
                               else (Inr (Some st1), lg4))))))"

text \<open>The loop over the indices that are still to come.\<close>

fun search_loop ::
  "env \<Rightarrow> TTDDRAgent \<Rightarrow> nat list \<Rightarrow> AgentState \<Rightarrow> event list
     \<Rightarrow> (error + AgentState) \<times> event list" where
  "search_loop e ag [] st lg = (Inr st, lg)"
| "search_loop e ag (step # steps) st lg =
     (case search_step e ag step st lg of
        (Inl x, lg1) \<Rightarrow> (Inl x, lg1)
      | (Inr None, lg1) \<Rightarrow> (Inr st, lg1)
      | (Inr (Some st1), lg1) \<Rightarrow> search_loop e ag steps st1 lg1)"

text \<open>\<open>range(n)\<close>: empty when \<open>n\<close> is not positive.\<close>

definition py_range :: "int \<Rightarrow> nat list" where
  "py_range n = [0..<nat n]"

definition iterative_search_and_refine ::
  "env \<Rightarrow> TTDDRAgent \<Rightarrow> AgentState \<Rightarrow> event list \<Rightarrow> (error + AgentState) \<times> event list" where
  "iterative_search_and_refine e ag st lg =
     search_loop e ag (py_range (max_search_steps ag)) st lg"

text \<open>
  \<open>TTDDRAgent.run\<close>.  The progress line after planning takes \<open>len\<close> of the plan's
  sections and can raise.
\<close>

definition plan_sections_len :: "json \<Rightarrow> error + nat" where
  "plan_sections_len p =
     (case dict_get p (lit ''sections'') (JArr []) of Inl x \<Rightarrow> Inl x | Inr secs \<Rightarrow> py_len secs)"

definition initial_draft_stage ::
  "env \<Rightarrow> TTDDRAgent \<Rightarrow> AgentState \<Rightarrow> event list \<Rightarrow> (error + AgentState) \<times> event list" where
  "initial_draft_stage e ag st lg =
     (if use_diffusion ag
      then (case generate_initial_draft e st lg of
              (Inl x, lg1) \<Rightarrow> (Inl x, lg1)
            | (Inr d, lg1) \<Rightarrow> (Inr (st\<lparr>draft_report := d\<rparr>), lg1))
      else (Inr st, lg))"

definition run ::
  "env \<Rightarrow> TTDDRAgent \<Rightarrow> str \<Rightarrow> str \<Rightarrow> event list \<Rightarrow> (error + AgentState) \<times> event list" where
  "run e ag address_text b lg =
     (case generate_plan e address_text b lg of
        (Inl x, lg1) \<Rightarrow> (Inl x, lg1)
      | (Inr p, lg1) \<Rightarrow>
          (case plan_sections_len p of
             Inl x \<Rightarrow> (Inl x, lg1)
           | Inr n \<Rightarrow>
               (case initial_draft_stage e ag ((new_AgentState address_text b)\<lparr>plan := p\<rparr>) lg1 of
                  (Inl x, lg2) \<Rightarrow> (Inl x, lg2)
                | (Inr st2, lg2) \<Rightarrow>
                    (case iterative_search_and_refine e ag st2 lg2 of
                       (Inl x, lg3) \<Rightarrow> (Inl x, lg3)
                     | (Inr st3, lg3) \<Rightarrow>
                         (case generate_final_report e ag st3 lg3 of
                            (r, lg4) \<Rightarrow> (Inr (st3\<lparr>final_report := r\<rparr>), lg4))))))"

text \<open>Calls of the log by kind.\<close>

definition is_search :: "event \<Rightarrow> bool" where
  "is_search ev = (case ev of Searched q r \<Rightarrow> True | _ \<Rightarrow> False)"

definition is_question_call :: "event \<Rightarrow> bool" where
  "is_question_call ev =
     (case ev of Generated r c \<Rightarrow> system_msg r = question_system | _ \<Rightarrow> False)"

definition is_denoise_call :: "event \<Rightarrow> bool" where
  "is_denoise_call ev =
     (case ev of Generated r c \<Rightarrow> system_msg r = denoise_system | _ \<Rightarrow> False)"


text \<open>Model calls, and the number of web searches in a log.\<close>

definition is_model_call :: "event \<Rightarrow> bool" where
  "is_model_call ev = (case ev of Generated r c \<Rightarrow> True | _ \<Rightarrow> False)"

text \<open>\<open>grows P lg lg'\<close>: the log \<open>lg'\<close> is \<open>lg\<close> followed by events that all satisfy \<open>P\<close>.\<close>

definition grows :: "(event \<Rightarrow> bool) \<Rightarrow> event list \<Rightarrow> event list \<Rightarrow> bool" where
  "grows P lg lg' = (\<exists>tr. lg' = lg @ tr \<and> list_all P tr)"

definition searches :: "event list \<Rightarrow> nat" where
  "searches lg = length (filter is_search lg)"

section \<open>The graph variant (agents/ttd\_dr\_agent.py, LangGraph integration)\<close>

text \<open>
  Messages as the nodes read them: the two message classes with a \<open>content\<close> attribute,
  a dict, or any other object (given by its \<open>str\<close>).  The pictographs that open the
  status messages are written as their code points.
\<close>

datatype message =
    AIMessage str
  | HumanMessage str
  | DictMessage "(str \<times> str) list"
  | OtherMessage str

record TTDDRGraphState =
  messages :: "message list"
  address :: str
  brief_g :: str
  plan_g :: json
  search_history_g :: "(str \<times> str) list"
  draft_report_g :: str
  final_report_g :: str
  step_count :: int

text \<open>
  What a node returns: the messages to append (the \<open>messages\<close> channel is reduced with
  \<open>operator.add\<close>) and the keys to overwrite.
\<close>

record update =
  u_messages :: "message list"
  u_address :: "str option"
  u_brief :: "str option"
  u_plan :: "json option"
  u_search_history :: "(str \<times> str) list option"
  u_draft_report :: "str option"
  u_final_report :: "str option"
  u_step_count :: "int option"

definition no_update :: update where
  "no_update =
     \<lparr>u_messages = [], u_address = None, u_brief = None, u_plan = None,
      u_search_history = None, u_draft_report = None, u_final_report = None,
      u_step_count = None\<rparr>"

definition apply_update :: "TTDDRGraphState \<Rightarrow> update \<Rightarrow> TTDDRGraphState" where
  "apply_update st u =
     \<lparr>messages = messages st @ u_messages u,
      address = (case u_address u of Some v \<Rightarrow> v | None \<Rightarrow> address st),
      brief_g = (case u_brief u of Some v \<Rightarrow> v | None \<Rightarrow> brief_g st),
      plan_g = (case u_plan u of Some v \<Rightarrow> v | None \<Rightarrow> plan_g st),
      search_history_g =
        (case u_search_history u of Some v \<Rightarrow> v | None \<Rightarrow> search_history_g st),
      draft_report_g = (case u_draft_report u of Some v \<Rightarrow> v | None \<Rightarrow> draft_report_g st),
      final_report_g = (case u_final_report u of Some v \<Rightarrow> v | None \<Rightarrow> final_report_g st),
      step_count = (case u_step_count u of Some v \<Rightarrow> v | None \<Rightarrow> step_count st)\<rparr>"

definition message_text :: "message \<Rightarrow> str" where
  "message_text m =
     (case m of
        AIMessage c \<Rightarrow> c
      | HumanMessage c \<Rightarrow> c
      | DictMessage kvs \<Rightarrow> (case map_of kvs (lit ''content'') of Some c \<Rightarrow> c | None \<Rightarrow> [])
      | OtherMessage s \<Rightarrow> s)"

definition parse_input_node :: "TTDDRGraphState \<Rightarrow> update" where
  "parse_input_node st =
     (if messages st = []
      then no_update\<lparr>u_address := Some [], u_brief := Some [],
                     u_search_history := Some [], u_step_count := Some 0\<rparr>
      else
        (let user_input = message_text (last (messages st))
         in no_update\<lparr>u_address := Some user_input, u_brief := Some [],
                       u_search_history := Some [], u_step_count := Some 0,
                       u_messages :=
                         [AIMessage ([0x1F3AF]
                                     @ (lit '' Starting: '') @ user_input)]\<rparr>))"

definition stage1_plan_node ::
  "env \<Rightarrow> TTDDRGraphState \<Rightarrow> event list \<Rightarrow> (error + update) \<times> event list" where
  "stage1_plan_node e st lg =
     (case generate_plan e (address st) (brief_g st) lg of
        (Inl x, lg1) \<Rightarrow> (Inl x, lg1)
      | (Inr p, lg1) \<Rightarrow>
          (case plan_sections_len p of
             Inl x \<Rightarrow> (Inl x, lg1)
           | Inr n \<Rightarrow>
               (Inr (no_update\<lparr>u_plan := Some p,
                       u_messages :=
                         [AIMessage ([0x1F4DD]
                                     @ (lit '' Plan: '') @ show_nat n @ (lit '' sections''))]\<rparr>),
                lg1)))"

text \<open>The titles of the plan's sections, each line built by \<open>line\<close>.\<close>

fun section_titles ::
  "env \<Rightarrow> (nat \<Rightarrow> str \<Rightarrow> str) \<Rightarrow> (nat \<times> json) list \<Rightarrow> error + str list" where
  "section_titles e line [] = Inr []"
| "section_titles e line (p # ps) =
     (case dict_get (snd p) (lit ''title'') (JStr (lit ''Section'')) of
        Inl x \<Rightarrow> Inl x
      | Inr title \<Rightarrow>
          (case section_titles e line ps of
             Inl x \<Rightarrow> Inl x
           | Inr ls \<Rightarrow> Inr (line (fst p) (py_str e title) # ls)))"

text \<open>The two line formats of the plan text: numbered, and with a bullet.\<close>

definition numbered_line :: "nat \<Rightarrow> str \<Rightarrow> str" where
  "numbered_line i t = show_nat (i + 1) @ (lit ''. '') @ t"

definition bullet_line :: "nat \<Rightarrow> str \<Rightarrow> str" where
  "bullet_line i t = [0x2022] @ (lit '' '') @ t"

definition plan_text ::
  "env \<Rightarrow> (nat \<Rightarrow> str \<Rightarrow> str) \<Rightarrow> json \<Rightarrow> error + str" where
  "plan_text e line p =
     (case dict_get p (lit ''sections'') (JArr []) of
        Inl x \<Rightarrow> Inl x
      | Inr secs \<Rightarrow>
          (case iterate secs of
             Inl x \<Rightarrow> Inl x
           | Inr ss \<Rightarrow>
               (case section_titles e line (enumerate_from 0 ss) of
                  Inl x \<Rightarrow> Inl x
                | Inr ls \<Rightarrow> Inr (join (lit ''\<newline>'') ls))))"

definition stage2_draft_request :: "TTDDRGraphState \<Rightarrow> str \<Rightarrow> request" where
  "stage2_draft_request st pt =
     \<lparr>system_msg = ''Generate an initial feasibility draft. Use internal knowledge to create preliminary structure that will be refined through research.'',
      user_msg = ''Address: {address}\<newline>Brief: {brief}\<newline>Plan:\<newline>{plan}\<newline>\<newline>Generate initial draft.'',
      slots = [(''address'', address st), (''brief'', brief_g st), (''plan'', pt)]\<rparr>"

definition stage2_draft_node ::
  "env \<Rightarrow> TTDDRGraphState \<Rightarrow> event list \<Rightarrow> (error + update) \<times> event list" where
  "stage2_draft_node e st lg =
     (case plan_text e numbered_line (plan_g st) of
        Inl x \<Rightarrow> (Inl x, lg)
      | Inr pt \<Rightarrow>
          (case invoke_model e (stage2_draft_request st pt) lg of
             (c, lg1) \<Rightarrow>
               (Inr (no_update\<lparr>u_draft_report := Some c,
                       u_messages :=
                         [AIMessage ([0x270D, 0xFE0F]
                                     @ (lit '' Initial draft: '') @ show_nat (length c) @ (lit '' chars''))]\<rparr>),
                lg1)))"

definition graph_question_system :: string where
  "graph_question_system =
     ''Generate the next specific search question for feasibility study. Consider plan, previous questions, and knowledge gaps. Return focused question or 'DONE'.''"

definition graph_history :: "TTDDRGraphState \<Rightarrow> str" where
  "graph_history st =
     (if search_history_g st \<noteq> []
      then join (lit ''\<newline>'')
             (map (\<lambda>iq. show_nat (fst iq + 1) @ (lit ''. '') @ fst (snd iq))
                (enumerate_from 0 (last_n 3 (search_history_g st))))
      else (lit ''None''))"

definition graph_question_request :: "TTDDRGraphState \<Rightarrow> str \<Rightarrow> request" where
  "graph_question_request st pt =
     \<lparr>system_msg = graph_question_system,
      user_msg = ''Address: {address}\<newline>Step: {step}/2\<newline>Plan:\<newline>{plan}\<newline>Previous:\<newline>{history}\<newline>\<newline>Next question:'',
      slots = [(''address'', address st), (''step'', show_int (step_count st + 1)),
               (''plan'', pt), (''history'', graph_history st)]\<rparr>"

definition research_complete :: message where
  "research_complete = AIMessage ([0x2713] @ (lit '' Research complete''))"

definition graph_answer_system :: string where
  "graph_answer_system =
     ''Synthesize answer from search results. Focus on property feasibility facts.''"

definition graph_answer_request :: "str \<Rightarrow> str \<Rightarrow> str \<Rightarrow> request" where
  "graph_answer_request q web_results kb_results =
     \<lparr>system_msg = graph_answer_system,
      user_msg = ''Question: {q}\<newline>Web:\<newline>{web}\<newline>KB:\<newline>{kb}\<newline>\<newline>Answer:'',
      slots = [(''q'', q), (''web'', take 1500 web_results),
               (''kb'', if kb_results \<noteq> [] then take 500 kb_results else (lit ''N/A''))]\<rparr>"

definition step_text :: "int \<Rightarrow> str \<Rightarrow> str" where
  "step_text step q =
     [0x1F50D] @ (lit '' Step '') @ show_int (step + 1) @ (lit '': '') @ take 80 q @ (lit ''...'')"

definition step_message :: "int \<Rightarrow> str \<Rightarrow> message" where
  "step_message step q = AIMessage (step_text step q)"

definition evolution_message :: message where
  "evolution_message = AIMessage ([0x1F9EC] @ (lit '' Self-evolution''))"

text \<open>
  The part of \<open>search_node\<close> after the sentinel test: search, answer, the self-evolution
  branch, and the update that appends the pair and counts the step.
\<close>

definition search_and_record ::
  "env \<Rightarrow> TTDDRGraphState \<Rightarrow> str \<Rightarrow> event list \<Rightarrow> update \<times> event list" where
  "search_and_record e st q lg =
     (let step = step_count st in
      case invoke_search e q lg of
        (web_results, lg1) \<Rightarrow>
          (case kb_lookup e q lg1 of
             (kb_results, lg2) \<Rightarrow>
               (case invoke_model e (graph_answer_request q web_results kb_results) lg2 of
                  (a, lg3) \<Rightarrow>
                    (case (if step mod 2 = 0 \<and> step > 0
                           then (case evolve_answer e q a 2 1 lg3 of
                                   (a', lg4) \<Rightarrow>
                                     ([step_message step q, evolution_message], a', lg4))
                           else ([step_message step q], a, lg3)) of
                       (msgs, a', lg4) \<Rightarrow>
                         (no_update
                            \<lparr>u_search_history := Some (search_history_g st @ [(q, a')]),
                             u_step_count := Some (step + 1),
                             u_messages := msgs\<rparr>,
                          lg4)))))"

definition search_node ::
  "env \<Rightarrow> TTDDRGraphState \<Rightarrow> event list \<Rightarrow> (error + update) \<times> event list" where
  "search_node e st lg =
     (case plan_text e bullet_line (plan_g st) of
        Inl x \<Rightarrow> (Inl x, lg)
      | Inr pt \<Rightarrow>
          (case invoke_model e (graph_question_request st pt) lg of
             (c, lg1) \<Rightarrow>
               (if contains (upper (ucd e) (strip (ucd e) c)) (lit ''DONE'') \<or> step_count st \<ge> 2
                then (Inr (no_update\<lparr>u_messages := [research_complete]\<rparr>), lg1)
                else (case search_and_record e st (strip (ucd e) c) lg1 of
                        (u, lg2) \<Rightarrow> (Inr u, lg2)))))"

definition pairs_text :: "(str \<times> str) list \<Rightarrow> str" where
  "pairs_text qas =
     join (lit ''\<newline>\<newline>'') (map (\<lambda>qa. (lit ''Q: '') @ fst qa @ (lit ''\<newline>A: '') @ snd qa) qas)"

definition graph_denoise_request :: "TTDDRGraphState \<Rightarrow> request" where
  "graph_denoise_request st =
     \<lparr>system_msg = ''Refine draft through diffusion denoising. Incorporate research, update facts, verify consistency, maintain structure, improve clarity.'',
      user_msg = ''Draft:\<newline>{draft}\<newline>\<newline>Research:\<newline>{research}\<newline>\<newline>Refine:'',
      slots = [(''draft'', take 1500 (draft_report_g st)),
               (''research'', pairs_text (last_n 2 (search_history_g st)))]\<rparr>"

definition denoise_node ::
  "env \<Rightarrow> TTDDRGraphState \<Rightarrow> event list \<Rightarrow> update \<times> event list" where
  "denoise_node e st lg =
     (if search_history_g st = []
      then (no_update\<lparr>u_messages :=
                [AIMessage ([0x26A0, 0xFE0F]
                            @ (lit '' No research''))]\<rparr>, lg)
      else
        (case invoke_model e (graph_denoise_request st) lg of
           (c, lg1) \<Rightarrow>
             (no_update\<lparr>u_draft_report := Some c,
                u_messages :=
                  [AIMessage ([0x1F4DD] @ (lit '' Denoised (revision '')
                              @ show_int (step_count st) @ (lit '')''))]\<rparr>,
              lg1)))"

definition graph_final_request :: "TTDDRGraphState \<Rightarrow> request" where
  "graph_final_request st =
     \<lparr>system_msg = ''Generate comprehensive investor-grade feasibility study. Structure: Executive Summary, Site Context, Zoning, Environmental, Infrastructure, Market, Opportunities, Risks, Recommendations. Use professional language, cite sources, be thorough.'',
      user_msg = ''Address: {address}\<newline>Brief: {brief}\<newline>Research:\<newline>{research}\<newline>Draft:\<newline>{draft}\<newline>\<newline>Generate final report:'',
      slots = [(''address'', address st), (''brief'', brief_g st),
               (''research'', take 3000 (pairs_text (search_history_g st))),
               (''draft'', take 1500 (draft_report_g st))]\<rparr>"

definition final_report_node ::
  "env \<Rightarrow> TTDDRGraphState \<Rightarrow> event list \<Rightarrow> update \<times> event list" where
  "final_report_node e st lg =
     (case invoke_model e (graph_final_request st) lg of
        (c, lg1) \<Rightarrow>
          (no_update\<lparr>u_final_report := Some c,
             u_messages :=
               [AIMessage ([0x2705] @ (lit '' Final report: '')
                           @ show_nat (length c) @ (lit '' chars\<newline>\<newline>'') @ take 500 c @ (lit ''...''))]\<rparr>,
           lg1))"

subsection \<open>Routing and the graph\<close>

datatype node =
  ParseInput | Stage1Plan | Stage2Draft | SearchNode | DenoiseNode | FinalReport | EndNode

text \<open>The \<open>content\<close> attribute of a message; a dict and a bare object have none.\<close>

definition content_attr :: "message \<Rightarrow> error + str" where
  "content_attr m =
     (case m of
        AIMessage c \<Rightarrow> Inr c
      | HumanMessage c \<Rightarrow> Inr c
      | _ \<Rightarrow> Inl AttributeError)"

definition should_continue_search :: "env \<Rightarrow> TTDDRGraphState \<Rightarrow> error + node" where
  "should_continue_search e st =
     (if step_count st \<ge> 2 then Inr FinalReport
      else if messages st = [] then Inr DenoiseNode
      else (case content_attr (last (messages st)) of
              Inl x \<Rightarrow> Inl x
            | Inr c \<Rightarrow>
                Inr (if contains (lower (ucd e) c) (lit ''complete'') then FinalReport
                     else DenoiseNode)))"

definition after_denoise_routing :: "TTDDRGraphState \<Rightarrow> node" where
  "after_denoise_routing st = (if step_count st \<ge> 2 then FinalReport else SearchNode)"

text \<open>
  The graph of \<open>create_graph\<close>: a node's function, then the edge that leaves the node,
  read on the state with the node's update applied.
\<close>

definition run_node ::
  "env \<Rightarrow> node \<Rightarrow> TTDDRGraphState \<Rightarrow> event list \<Rightarrow> (error + update) \<times> event list" where
  "run_node e n st lg =
     (case n of
        ParseInput \<Rightarrow> (Inr (parse_input_node st), lg)
      | Stage1Plan \<Rightarrow> stage1_plan_node e st lg
      | Stage2Draft \<Rightarrow> stage2_draft_node e st lg
      | SearchNode \<Rightarrow> search_node e st lg
      | DenoiseNode \<Rightarrow> (case denoise_node e st lg of (u, lg1) \<Rightarrow> (Inr u, lg1))
      | FinalReport \<Rightarrow> (case final_report_node e st lg of (u, lg1) \<Rightarrow> (Inr u, lg1))
      | EndNode \<Rightarrow> (Inr no_update, lg))"

definition next_node :: "env \<Rightarrow> node \<Rightarrow> TTDDRGraphState \<Rightarrow> error + node" where
  "next_node e n st =
     (case n of
        ParseInput \<Rightarrow> Inr Stage1Plan
      | Stage1Plan \<Rightarrow> Inr Stage2Draft
      | Stage2Draft \<Rightarrow> Inr SearchNode
      | SearchNode \<Rightarrow> should_continue_search e st
      | DenoiseNode \<Rightarrow> Inr (after_denoise_routing st)
      | FinalReport \<Rightarrow> Inr EndNode
      | EndNode \<Rightarrow> Inr EndNode)"

definition graph_step ::
  "env \<Rightarrow> node \<Rightarrow> TTDDRGraphState \<Rightarrow> event list
     \<Rightarrow> (error + node \<times> TTDDRGraphState) \<times> event list" where
  "graph_step e n st lg =
     (case run_node e n st lg of
        (Inl x, lg1) \<Rightarrow> (Inl x, lg1)
      | (Inr u, lg1) \<Rightarrow>
          (case next_node e n (apply_update st u) of
             Inl x \<Rightarrow> (Inl x, lg1)
           | Inr n1 \<Rightarrow> (Inr (n1, apply_update st u), lg1)))"

text \<open>A bound on the nodes still to run, from the node and the step counter.\<close>

definition nodes_left :: "node \<Rightarrow> TTDDRGraphState \<Rightarrow> nat" where
  "nodes_left n st =
     (case n of
        EndNode \<Rightarrow> 0
      | FinalReport \<Rightarrow> 1
      | SearchNode \<Rightarrow> 2 * nat (2 - step_count st) + 3
      | DenoiseNode \<Rightarrow> 2 * nat (2 - step_count st) + 4
      | Stage2Draft \<Rightarrow> 2 * nat (2 - step_count st) + 5
      | Stage1Plan \<Rightarrow> 2 * nat (2 - step_count st) + 6
      | ParseInput \<Rightarrow> 12)"


text \<open>
  The graph runs a node, applies its update and follows the edge, until it reaches the end
  node.  Each step lowers \<open>nodes_left\<close>, so the run is a total function.
\<close>

lemma search_and_record_step:
  "search_and_record e st q lg = (u, lg1) \<Longrightarrow> u_step_count u = Some (step_count st + 1)"
  by (auto simp: search_and_record_def Let_def no_update_def split: prod.splits if_splits)

lemma search_node_cases:
  "search_node e st lg = (Inr u, lg1) \<Longrightarrow>
     u = no_update\<lparr>u_messages := [research_complete]\<rparr>
     \<or> (step_count st < 2 \<and> u_step_count u = Some (step_count st + 1))"
  by (auto simp: search_node_def search_and_record_step split: sum.splits prod.splits if_splits)

lemma contains_append: "contains b sub \<Longrightarrow> contains (a @ b) sub"
  by (induction a) auto

lemma lower_complete:
  "contains (lower u (c # lit '' Research complete'')) (lit ''complete'')"
proof -
  have "contains (lower_from u s i (lit '' Research complete'')) (lit ''complete'')" for s i
    by (simp add: lit_def ord_def ascii_lower_def)
  then show ?thesis
    unfolding lower_def lower_from.simps by (rule contains_append)
qed

lemma complete_routes_to_final:
  "should_continue_search e (apply_update st (no_update\<lparr>u_messages := [research_complete]\<rparr>))
     = Inr FinalReport"
  using lower_complete[of "ucd e" "0x2713"]
  by (simp add: should_continue_search_def apply_update_def no_update_def research_complete_def
       content_attr_def)

lemma should_continue_range:
  "should_continue_search e st = Inr n \<Longrightarrow> n = FinalReport \<or> (n = DenoiseNode \<and> step_count st < 2)"
  by (auto simp: should_continue_search_def split: if_splits sum.splits)

lemma step_count_apply:
  "step_count (apply_update st u) = (case u_step_count u of Some v \<Rightarrow> v | None \<Rightarrow> step_count st)"
  by (simp add: apply_update_def)

lemma parse_input_step: "u_step_count (parse_input_node st) = Some 0"
  by (simp add: parse_input_node_def no_update_def Let_def)

lemma stage1_step: "stage1_plan_node e st lg = (Inr u, lg1) \<Longrightarrow> u_step_count u = None"
  by (auto simp: stage1_plan_node_def no_update_def split: sum.splits prod.splits)

lemma stage2_step: "stage2_draft_node e st lg = (Inr u, lg1) \<Longrightarrow> u_step_count u = None"
  by (auto simp: stage2_draft_node_def no_update_def split: sum.splits prod.splits)

lemma denoise_step: "denoise_node e st lg = (u, lg1) \<Longrightarrow> u_step_count u = None"
  by (auto simp: denoise_node_def no_update_def split: prod.splits if_splits)

lemma graph_step_decreases:
  assumes "(Inr (n1, st1), lg1) = graph_step e n st lg" and "n \<noteq> EndNode"
  shows "nodes_left n1 st1 < nodes_left n st"
proof (cases n)
  case ParseInput
  with assms have "n1 = Stage1Plan" "st1 = apply_update st (parse_input_node st)"
    by (auto simp: graph_step_def run_node_def next_node_def)
  then show ?thesis using ParseInput
    by (simp add: nodes_left_def step_count_apply parse_input_step)
next
  case Stage1Plan
  with assms obtain u where "stage1_plan_node e st lg = (Inr u, lg1)" "n1 = Stage2Draft"
      "st1 = apply_update st u"
    by (auto simp: graph_step_def run_node_def next_node_def split: sum.splits prod.splits)
  then show ?thesis using Stage1Plan
    by (simp add: nodes_left_def step_count_apply stage1_step)
next
  case Stage2Draft
  with assms obtain u where "stage2_draft_node e st lg = (Inr u, lg1)" "n1 = SearchNode"
      "st1 = apply_update st u"
    by (auto simp: graph_step_def run_node_def next_node_def split: sum.splits prod.splits)
  then show ?thesis using Stage2Draft
    by (simp add: nodes_left_def step_count_apply stage2_step)
next
  case SearchNode
  from assms SearchNode obtain u where
    u: "search_node e st lg = (Inr u, lg1)" and
    nx: "should_continue_search e (apply_update st u) = Inr n1" and
    st1: "st1 = apply_update st u"
    by (auto simp: graph_step_def run_node_def next_node_def split: sum.splits prod.splits)
  from search_node_cases[OF u] show ?thesis
  proof
    assume "u = no_update\<lparr>u_messages := [research_complete]\<rparr>"
    with nx complete_routes_to_final have "n1 = FinalReport" by simp
    then show ?thesis using SearchNode by (simp add: nodes_left_def)
  next
    assume a: "step_count st < 2 \<and> u_step_count u = Some (step_count st + 1)"
    from should_continue_range[OF nx] show ?thesis
      using a st1 SearchNode by (auto simp: nodes_left_def step_count_apply)
  qed
next
  case DenoiseNode
  with assms obtain u where u: "denoise_node e st lg = (u, lg1)"
      "n1 = after_denoise_routing (apply_update st u)" "st1 = apply_update st u"
    by (auto simp: graph_step_def run_node_def next_node_def split: sum.splits prod.splits)
  then have "step_count st1 = step_count st" by (simp add: step_count_apply denoise_step)
  then show ?thesis using DenoiseNode u
    by (auto simp: nodes_left_def after_denoise_routing_def)
next
  case FinalReport
  with assms have "n1 = EndNode"
    by (auto simp: graph_step_def run_node_def next_node_def split: sum.splits prod.splits)
  then show ?thesis using FinalReport by (simp add: nodes_left_def)
next
  case EndNode
  with assms show ?thesis by simp
qed

function run_from ::
  "env \<Rightarrow> node \<Rightarrow> TTDDRGraphState \<Rightarrow> event list \<Rightarrow> (error + TTDDRGraphState) \<times> event list" where
  "run_from e n st lg =
     (if n = EndNode then (Inr st, lg)
      else (case graph_step e n st lg of
              (Inl x, lg1) \<Rightarrow> (Inl x, lg1)
            | (Inr (n1, st1), lg1) \<Rightarrow> run_from e n1 st1 lg1))"
  by pat_completeness auto
termination
  by (relation "measure (\<lambda>(e, n, st, lg). nodes_left n st)")
     (auto intro: graph_step_decreases)

declare run_from.simps [simp del]

text \<open>\<open>graph.invoke(state)\<close>: the run from the entry node.\<close>

definition run_graph ::
  "env \<Rightarrow> TTDDRGraphState \<Rightarrow> event list \<Rightarrow> (error + TTDDRGraphState) \<times> event list" where
  "run_graph e st lg = run_from e ParseInput st lg"

subsection \<open>Counting in the graph\<close>

definition model_calls :: "event list \<Rightarrow> nat" where
  "model_calls lg = length (filter is_model_call lg)"

text \<open>A bound on the web searches a graph run can still make from a node.\<close>

definition searches_left :: "node \<Rightarrow> TTDDRGraphState \<Rightarrow> nat" where
  "searches_left n st =
     (case n of
        ParseInput \<Rightarrow> 2
      | FinalReport \<Rightarrow> 0
      | EndNode \<Rightarrow> 0
      | _ \<Rightarrow> nat (2 - step_count st))"


section \<open>Sample runs\<close>

text \<open>
  A one-step agent with denoising and without self-evolution, a state whose plan is the
  planner's default plan, and the same for the graph variant.
\<close>

definition sample_agent :: TTDDRAgent where
  "sample_agent = \<lparr>max_search_steps = 1, use_self_evolution = False, use_diffusion = True\<rparr>"

definition sample_state :: AgentState where
  "sample_state = (new_AgentState (lit ''1 Main St'') [])\<lparr>plan := default_plan (lit ''1 Main St'')\<rparr>"

definition sample_graph_state :: TTDDRGraphState where
  "sample_graph_state =
     \<lparr>messages = [HumanMessage (lit ''1 Main St'')], address = (lit ''1 Main St''), brief_g = [],
      plan_g = default_plan (lit ''1 Main St''), search_history_g = [], draft_report_g = (lit ''draft''),
      final_report_g = [], step_count = 0\<rparr>"


text \<open>A state with two recorded searches, and a draft of 501 characters.\<close>

definition twice_asked_state :: AgentState where
  "twice_asked_state =
     sample_state\<lparr>search_history :=
        [\<lparr>question = lit ''first'', answer = lit ''one'', sources = [],
          timestamp = lit ''2024-01-01T00:00:00'', score = 0\<rparr>,
         \<lparr>question = lit ''second'', answer = lit ''two'', sources = [],
          timestamp = lit ''2024-01-01T00:00:00'', score = 0\<rparr>],
       draft_report := replicate 501 (ord CHR ''x'')\<rparr>"

text \<open>States in which one search has been recorded already.\<close>

definition started_state :: AgentState where
  "started_state =
     sample_state\<lparr>search_history :=
        [\<lparr>question = lit ''Soil?'', answer = lit ''Clay.'', sources = [],
          timestamp = lit ''2024-01-01T00:00:00'', score = 0\<rparr>]\<rparr>"

definition started_graph_state :: TTDDRGraphState where
  "started_graph_state = sample_graph_state\<lparr>search_history_g := [(lit ''Soil?'', lit ''Clay.'')]\<rparr>"

text \<open>An environment whose model always asks the same question.\<close>

definition asking_env :: env where
  "asking_env = sample_env (\<lambda>lg r. (lit ''Zoning?''))"



text \<open>
  An environment whose model answers the planner with braces around a text that is not
  JSON, and a graph state at its third step.
\<close>

definition braces_env :: env where
  "braces_env = sample_env (\<lambda>lg r. lit ''{x}'')"


text \<open>An environment whose model always answers with the completion sentinel.\<close>

definition finished_env :: env where
  "finished_env = sample_env (\<lambda>lg r. lit ''DONE'')"

text \<open>The state after one completed pass from \<open>st\<close> with the asking environment.\<close>

definition asked_once :: "AgentState \<Rightarrow> AgentState" where
  "asked_once st =
     update_draft
       (add_search_result st (lit ''Zoning?'') (lit ''Zoning?'') None (lit ''2024-01-01T00:00:00''))
       (lit ''Zoning?'')"

section \<open>Properties\<close>

text \<open>
  C10. For every agent state and every new draft text, \<open>update_draft\<close> sets
  \<open>draft_report\<close> to exactly the new text, increments \<open>revision_count\<close> by exactly
  one, and leaves \<open>query\<close>, \<open>brief\<close>, \<open>plan\<close>, \<open>search_history\<close>, \<open>final_report\<close> and
  \<open>metadata\<close> unchanged.
\<close>

theorem update_draft_frame:
  "draft_report (update_draft st new_draft) = new_draft
   \<and> revision_count (update_draft st new_draft) = revision_count st + 1
   \<and> query (update_draft st new_draft) = query st
   \<and> brief (update_draft st new_draft) = brief st
   \<and> plan (update_draft st new_draft) = plan st
   \<and> search_history (update_draft st new_draft) = search_history st
   \<and> final_report (update_draft st new_draft) = final_report st
   \<and> metadata (update_draft st new_draft) = metadata st"
  by (simp add: update_draft_def)

subsection \<open>What one pass and the whole loop add to the log and the state\<close>

lemma grows_refl: "grows P lg lg"
  by (simp add: grows_def)

lemma grows_trans: "grows P lg lg1 \<Longrightarrow> grows P lg1 lg2 \<Longrightarrow> grows P lg lg2"
  by (auto simp: grows_def)

lemma grows_invoke_model: "invoke_model e r lg = (c, lg') \<Longrightarrow> grows is_model_call lg lg'"
  by (auto simp: invoke_model_def grows_def is_model_call_def Let_def)

lemma grows_generate_variants_loop:
  "generate_variants_loop e q a n lg = (vs, lg') \<Longrightarrow> grows is_model_call lg lg'"
proof (induction n arbitrary: lg vs)
  case 0
  then show ?case by (simp add: grows_refl)
next
  case (Suc n)
  then show ?case
    by (auto split: prod.splits intro: grows_trans dest: grows_invoke_model)
qed

lemma grows_evolve_variant_loop:
  "evolve_variant_loop e q n cur lg = (r, lg') \<Longrightarrow> grows is_model_call lg lg'"
proof (induction n arbitrary: cur lg)
  case 0
  then show ?case by (simp add: grows_refl)
next
  case (Suc n)
  from Suc.prems show ?case
    apply (clarsimp simp: evaluate_answer_def revise_with_feedback_def
             split: prod.splits if_splits)
     apply (erule grows_invoke_model)
    apply (meson Suc.IH grows_trans grows_invoke_model)
    done
qed

lemma grows_evolve_variants:
  "evolve_variants e q vs n lg = (rs, lg') \<Longrightarrow> grows is_model_call lg lg'"
proof (induction vs arbitrary: lg rs)
  case Nil
  then show ?case by (simp add: grows_refl)
next
  case (Cons v vs)
  then show ?case
    by (auto simp: evolve_variant_def split: prod.splits
          intro: grows_trans dest: grows_evolve_variant_loop)
qed

lemma grows_evolve_answer:
  "evolve_answer e q a nv ni lg = (r, lg') \<Longrightarrow> grows is_model_call lg lg'"
  apply (clarsimp simp: evolve_answer_def generate_variants_def merge_variants_def
           split: prod.splits)
  apply (meson grows_trans grows_generate_variants_loop grows_evolve_variants grows_invoke_model)
  done


lemma grows_searches:
  "grows is_model_call lg lg' \<Longrightarrow> searches lg' = searches lg \<and> prefix lg lg'"
proof -
  assume "grows is_model_call lg lg'"
  then obtain tr where tr: "lg' = lg @ tr" "list_all is_model_call tr"
    by (auto simp: grows_def)
  have "filter is_search tr = []"
    using tr(2) by (induction tr) (auto simp: is_model_call_def is_search_def split: event.splits)
  then show ?thesis using tr(1) by (simp add: searches_def)
qed

lemma invoke_model_searches:
  "invoke_model e r lg = (c, lg') \<Longrightarrow> searches lg' = searches lg \<and> prefix lg lg'"
  by (rule grows_searches) (rule grows_invoke_model)

lemma evolve_answer_searches:
  "evolve_answer e q a nv ni lg = (r, lg') \<Longrightarrow> searches lg' = searches lg \<and> prefix lg lg'"
  by (rule grows_searches) (rule grows_evolve_answer)

lemma invoke_search_searches:
  "invoke_search e q lg = (r, lg') \<Longrightarrow> searches lg' = Suc (searches lg) \<and> prefix lg lg'"
  by (auto simp: invoke_search_def searches_def is_search_def Let_def)

lemma kb_lookup_searches:
  "kb_lookup e q lg = (r, lg') \<Longrightarrow> searches lg' = searches lg \<and> prefix lg lg'"
  by (auto simp: kb_lookup_def retrieve_def searches_def is_search_def Let_def
        split: option.splits prod.splits)

lemma read_clock_searches:
  "read_clock e lg = (t, lg') \<Longrightarrow> searches lg' = searches lg \<and> prefix lg lg'"
  by (auto simp: read_clock_def searches_def is_search_def Let_def)

lemma search_and_answer_searches:
  "search_and_answer e q st lg = (a, lg') \<Longrightarrow> searches lg' = Suc (searches lg) \<and> prefix lg lg'"
  apply (clarsimp simp: search_and_answer_def split: prod.splits)
  apply (drule invoke_search_searches, drule kb_lookup_searches, drule invoke_model_searches)
  apply (auto intro: prefix_order.trans)
  done

lemma generate_search_question_searches:
  "generate_search_question e st lg = (r, lg') \<Longrightarrow> searches lg' = searches lg \<and> prefix lg lg'"
  by (auto simp: generate_search_question_def split: sum.splits prod.splits
        dest: invoke_model_searches)

lemma search_step_searches:
  assumes "search_step e ag step st lg = (res, lg')"
  shows "prefix lg lg' \<and>
         (case res of
            Inl x \<Rightarrow> searches lg' = searches lg
          | Inr None \<Rightarrow> searches lg' = searches lg
          | Inr (Some st1) \<Rightarrow>
              searches lg' = Suc (searches lg)
              \<and> (\<exists>r. search_history st1 = search_history st @ [r])
              \<and> revision_count st1 = revision_count st + (if use_diffusion ag then 1 else 0)
              \<and> plan st1 = plan st \<and> query st1 = query st \<and> brief st1 = brief st)"
proof -
  obtain rq lg1 where q: "generate_search_question e st lg = (rq, lg1)" by fastforce
  note q1 = generate_search_question_searches[OF q]
  show ?thesis
  proof (cases rq)
    case (Inl x)
    with assms q q1 show ?thesis by (auto simp add: search_step_def)
  next
    case (Inr qu)
    show ?thesis
    proof (cases "qu = [] \<or> qu = (lit ''DONE'')")
      case True
      with assms q q1 Inr show ?thesis by (auto simp add: search_step_def)
    next
      case False
      obtain a lg2 where a: "search_and_answer e qu st lg1 = (a, lg2)" by fastforce
      note a1 = search_and_answer_searches[OF a]
      obtain a' lg3 where ev:
        "(if use_self_evolution ag \<and> step mod 3 = 0
          then evolve_answer e qu a 2 1 lg2 else (a, lg2)) = (a', lg3)" by fastforce
      have ev1: "searches lg3 = searches lg2 \<and> prefix lg2 lg3"
        using ev by (auto split: if_splits dest: evolve_answer_searches)
      obtain ts lg4 where c: "read_clock e lg3 = (ts, lg4)" by fastforce
      note c1 = read_clock_searches[OF c]
      obtain d lg5 where d: "denoise_draft e (add_search_result st qu a' None ts) lg4 = (d, lg5)"
        by fastforce
      have d1: "searches lg5 = searches lg4 \<and> prefix lg4 lg5"
        using d by (auto simp: denoise_draft_def dest: invoke_model_searches)
      from assms q Inr False a ev c d
      have res: "(res, lg') =
           (if use_diffusion ag
            then (Inr (Some (update_draft (add_search_result st qu a' None ts) d)), lg5)
            else (Inr (Some (add_search_result st qu a' None ts)), lg4))"
        by (auto simp add: search_step_def Let_def split: if_splits)
      show ?thesis
      proof (cases "use_diffusion ag")
        case True
        with res q1 a1 ev1 c1 d1 show ?thesis
          by (auto simp: update_draft_def add_search_result_def intro: prefix_order.trans)
      next
        case False
        with res q1 a1 ev1 c1 show ?thesis
          by (auto simp: add_search_result_def intro: prefix_order.trans)
      qed
    qed
  qed
qed

lemma search_loop_invariant:
  "search_loop e ag steps st lg = (res, lg') \<Longrightarrow>
     prefix lg lg' \<and> searches lg' \<le> searches lg + length steps \<and>
     (case res of
        Inl x \<Rightarrow> True
      | Inr st' \<Rightarrow>
          prefix (search_history st) (search_history st')
          \<and> length (search_history st') = length (search_history st) + (searches lg' - searches lg)
          \<and> revision_count st' = revision_count st
               + (if use_diffusion ag then int (searches lg' - searches lg) else 0)
          \<and> plan st' = plan st \<and> query st' = query st \<and> brief st' = brief st)"
proof (induction steps arbitrary: st lg)
  case Nil
  then show ?case by auto
next
  case (Cons step steps)
  obtain r1 lg1 where s: "search_step e ag step st lg = (r1, lg1)" by fastforce
  note s1 = search_step_searches[OF s]
  show ?case
  proof (cases r1)
    case (Inl x)
    with Cons.prems s s1 show ?thesis by auto
  next
    case (Inr o1)
    show ?thesis
    proof (cases o1)
      case None
      with Cons.prems s s1 Inr show ?thesis by auto
    next
      case (Some st1)
      with Cons.prems s Inr have l: "search_loop e ag steps st1 lg1 = (res, lg')" by simp
      note ih = Cons.IH[OF l]
      from s1 Inr Some have
        p1: "prefix lg lg1" and n1: "searches lg1 = Suc (searches lg)" and
        h1: "\<exists>r. search_history st1 = search_history st @ [r]" and
        r1: "revision_count st1 = revision_count st + (if use_diffusion ag then 1 else 0)" and
        f1: "plan st1 = plan st" "query st1 = query st" "brief st1 = brief st"
        by auto
      from ih have p2: "prefix lg1 lg'" and n2: "searches lg' \<le> searches lg1 + length steps"
        by auto
      have mono: "searches lg1 \<le> searches lg'"
        using p2 by (auto simp: prefix_def searches_def)
      show ?thesis
      proof (cases res)
        case (Inl x)
        with p1 p2 n1 n2 show ?thesis by (auto intro: prefix_order.trans)
      next
        case (Inr st')
        with ih have
          h2: "prefix (search_history st1) (search_history st')" and
          l2: "length (search_history st') = length (search_history st1) + (searches lg' - searches lg1)" and
          r2: "revision_count st' = revision_count st1
               + (if use_diffusion ag then int (searches lg' - searches lg1) else 0)" and
          f2: "plan st' = plan st1" "query st' = query st1" "brief st' = brief st1"
          by auto
        from h1 h2 have h: "prefix (search_history st) (search_history st')"
          by (auto simp: prefix_def)
        from h1 l2 n1 mono have l: "length (search_history st') = length (search_history st) + (searches lg' - searches lg)"
          by auto
        from r1 r2 n1 mono have r: "revision_count st' = revision_count st
               + (if use_diffusion ag then int (searches lg' - searches lg) else 0)"
          by auto
        from Inr p1 p2 n1 n2 h l r f1 f2 show ?thesis by (auto intro: prefix_order.trans)
      qed
    qed
  qed
qed

subsection \<open>What the graph nodes and a graph run add to the log and the state\<close>

lemma invoke_model_calls:
  "invoke_model e r lg = (c, lg') \<Longrightarrow> model_calls lg' = Suc (model_calls lg)"
  by (auto simp: invoke_model_def model_calls_def is_model_call_def Let_def)

lemma invoke_search_calls:
  "invoke_search e q lg = (r, lg') \<Longrightarrow> model_calls lg' = model_calls lg"
  by (auto simp: invoke_search_def model_calls_def is_model_call_def Let_def)

lemma kb_lookup_calls:
  "kb_lookup e q lg = (r, lg') \<Longrightarrow> model_calls lg' = model_calls lg"
  by (auto simp: kb_lookup_def retrieve_def model_calls_def is_model_call_def Let_def
        split: option.splits prod.splits)

text \<open>Below the budget the self-evolution test of \<open>search_node\<close> is false.\<close>

lemma evolution_test_false: "step < 2 \<Longrightarrow> \<not> (step mod 2 = 0 \<and> step > (0::int))"
  by presburger

lemma search_and_record_result:
  assumes "search_and_record e st q lg = (u, lg')" and "step_count st < 2"
  shows "prefix lg lg' \<and> searches lg' = Suc (searches lg)
         \<and> model_calls lg' = Suc (model_calls lg)
         \<and> u_step_count u = Some (step_count st + 1)
         \<and> (\<exists>a. u_search_history u = Some (search_history_g st @ [(q, a)]))
         \<and> u_messages u = [step_message (step_count st) q]
         \<and> u_plan u = None \<and> u_address u = None \<and> u_draft_report u = None"
proof -
  obtain w lg1 where w: "invoke_search e q lg = (w, lg1)" by fastforce
  obtain k lg2 where k: "kb_lookup e q lg1 = (k, lg2)" by fastforce
  obtain a lg3 where a: "invoke_model e (graph_answer_request q w k) lg2 = (a, lg3)" by fastforce
  from assms w k a evolution_test_false[OF assms(2)]
  have "u = no_update\<lparr>u_search_history := Some (search_history_g st @ [(q, a)]),
                      u_step_count := Some (step_count st + 1),
                      u_messages := [step_message (step_count st) q]\<rparr>" and "lg' = lg3"
    by (auto simp: search_and_record_def Let_def)
  then show ?thesis
    using invoke_search_searches[OF w] kb_lookup_searches[OF k] invoke_model_searches[OF a]
      invoke_search_calls[OF w] kb_lookup_calls[OF k] invoke_model_calls[OF a]
    by (auto simp: no_update_def intro: prefix_order.trans)
qed

lemma search_node_result:
  assumes "search_node e st lg = (res, lg')"
  shows "prefix lg lg' \<and>
     (case res of
        Inl x \<Rightarrow> lg' = lg
      | Inr u \<Rightarrow>
          (u = no_update\<lparr>u_messages := [research_complete]\<rparr>
             \<and> searches lg' = searches lg \<and> model_calls lg' = Suc (model_calls lg))
          \<or> (step_count st < 2
               \<and> searches lg' = Suc (searches lg)
               \<and> model_calls lg' = Suc (Suc (model_calls lg))
               \<and> u_step_count u = Some (step_count st + 1)
               \<and> (\<exists>q a. u_search_history u = Some (search_history_g st @ [(q, a)])
                          \<and> u_messages u = [step_message (step_count st) q])))"
proof (cases "plan_text e bullet_line (plan_g st)")
  case (Inl x)
  with assms show ?thesis by (auto simp: search_node_def)
next
  case (Inr pt)
  obtain c lg1 where c: "invoke_model e (graph_question_request st pt) lg = (c, lg1)"
    by fastforce
  note c1 = invoke_model_searches[OF c] invoke_model_calls[OF c]
  show ?thesis
  proof (cases "contains (upper (ucd e) (strip (ucd e) c)) (lit ''DONE'') \<or> step_count st \<ge> 2")
    case True
    with assms Inr c c1 show ?thesis by (auto simp: search_node_def)
  next
    case False
    obtain u lg2 where u: "search_and_record e st (strip (ucd e) c) lg1 = (u, lg2)" by fastforce
    from False have lt: "step_count st < 2" by simp
    note u1 = search_and_record_result[OF u lt]
    from assms Inr c False u have "res = Inr u" "lg' = lg2" by (auto simp: search_node_def)
    with c1 u1 lt show ?thesis by (auto intro: prefix_order.trans)
  qed
qed

lemma stage1_result:
  "stage1_plan_node e st lg = (res, lg') \<Longrightarrow>
     prefix lg lg' \<and> searches lg' = searches lg \<and>
     (case res of Inl x \<Rightarrow> True
      | Inr u \<Rightarrow> u_step_count u = None \<and> u_search_history u = None)"
  apply (clarsimp simp: stage1_plan_node_def generate_plan_def Let_def plan_request_def
           split: sum.splits prod.splits option.splits if_splits)
  apply (auto dest!: invoke_model_searches simp: no_update_def)
  done

lemma stage2_result:
  "stage2_draft_node e st lg = (res, lg') \<Longrightarrow>
     prefix lg lg' \<and> searches lg' = searches lg \<and>
     (case res of Inl x \<Rightarrow> True
      | Inr u \<Rightarrow> u_step_count u = None \<and> u_search_history u = None)"
  by (auto simp: stage2_draft_node_def no_update_def split: sum.splits prod.splits
        dest!: invoke_model_searches)

lemma denoise_result:
  "denoise_node e st lg = (u, lg') \<Longrightarrow>
     prefix lg lg' \<and> searches lg' = searches lg \<and>
     u_step_count u = None \<and> u_search_history u = None"
  by (auto simp: denoise_node_def no_update_def split: prod.splits if_splits
        dest!: invoke_model_searches)

lemma final_result:
  "final_report_node e st lg = (u, lg') \<Longrightarrow>
     prefix lg lg' \<and> searches lg' = searches lg \<and>
     u_step_count u = None \<and> u_search_history u = None"
  by (auto simp: final_report_node_def no_update_def split: prod.splits
        dest!: invoke_model_searches)


lemma history_apply:
  "search_history_g (apply_update st u)
     = (case u_search_history u of Some v \<Rightarrow> v | None \<Rightarrow> search_history_g st)"
  by (simp add: apply_update_def)

lemma graph_step_result:
  assumes "graph_step e n st lg = (res, lg')"
  shows "prefix lg lg' \<and>
     (case res of
        Inl x \<Rightarrow> searches lg' \<le> searches lg + searches_left n st
      | Inr (n1, st1) \<Rightarrow>
          searches lg' + searches_left n1 st1 \<le> searches lg + searches_left n st
          \<and> n1 \<noteq> ParseInput
          \<and> (n \<noteq> ParseInput \<longrightarrow> prefix (search_history_g st) (search_history_g st1)))"
proof (cases n)
  case ParseInput
  with assms show ?thesis
    by (auto simp: graph_step_def run_node_def next_node_def searches_left_def
          step_count_apply parse_input_step)
next
  case Stage1Plan
  obtain r l where r: "stage1_plan_node e st lg = (r, l)" by fastforce
  from stage1_result[OF r] assms r Stage1Plan show ?thesis
    by (auto simp: graph_step_def run_node_def next_node_def searches_left_def
          step_count_apply history_apply split: sum.splits)
next
  case Stage2Draft
  obtain r l where r: "stage2_draft_node e st lg = (r, l)" by fastforce
  from stage2_result[OF r] assms r Stage2Draft show ?thesis
    by (auto simp: graph_step_def run_node_def next_node_def searches_left_def
          step_count_apply history_apply split: sum.splits)
next
  case SearchNode
  obtain r l where r: "search_node e st lg = (r, l)" by fastforce
  note r1 = search_node_result[OF r]
  show ?thesis
  proof (cases r)
    case (Inl x)
    with assms r r1 SearchNode show ?thesis
      by (auto simp: graph_step_def run_node_def)
  next
    case (Inr u)
    from r1 Inr consider
        (stop) "u = no_update\<lparr>u_messages := [research_complete]\<rparr>" "searches l = searches lg"
      | (more) "step_count st < 2" "searches l = Suc (searches lg)"
               "u_step_count u = Some (step_count st + 1)"
               "\<exists>q a. u_search_history u = Some (search_history_g st @ [(q, a)])"
      by auto
    then show ?thesis
    proof cases
      case stop
      with assms r r1 Inr SearchNode complete_routes_to_final[of e st] show ?thesis
        by (auto simp: graph_step_def run_node_def next_node_def searches_left_def
              history_apply no_update_def)
    next
      case more
      show ?thesis
      proof (cases "should_continue_search e (apply_update st u)")
        case (Inl x)
        with assms r r1 Inr SearchNode more show ?thesis
          by (auto simp: graph_step_def run_node_def next_node_def searches_left_def)
      next
        case nn: (Inr n1)
        from should_continue_range[OF nn] assms r r1 Inr SearchNode more nn show ?thesis
          by (auto simp: graph_step_def run_node_def next_node_def searches_left_def
                step_count_apply history_apply)
      qed
    qed
  qed
next
  case DenoiseNode
  obtain u l where r: "denoise_node e st lg = (u, l)" by fastforce
  from denoise_result[OF r] assms r DenoiseNode show ?thesis
    by (auto simp: graph_step_def run_node_def next_node_def searches_left_def
          step_count_apply history_apply after_denoise_routing_def)
next
  case FinalReport
  obtain u l where r: "final_report_node e st lg = (u, l)" by fastforce
  from final_result[OF r] assms r FinalReport show ?thesis
    by (auto simp: graph_step_def run_node_def next_node_def searches_left_def
          step_count_apply history_apply)
next
  case EndNode
  with assms show ?thesis
    by (auto simp: graph_step_def run_node_def next_node_def searches_left_def
          apply_update_def no_update_def)
qed

lemma run_from_result:
  "run_from e n st lg = (res, lg') \<Longrightarrow>
     prefix lg lg' \<and> searches lg' \<le> searches lg + searches_left n st
     \<and> (n \<noteq> ParseInput \<longrightarrow>
          (case res of Inl x \<Rightarrow> True
           | Inr st' \<Rightarrow> prefix (search_history_g st) (search_history_g st')))"
proof (induction e n st lg arbitrary: res lg' rule: run_from.induct)
  case (1 e n st lg)
  show ?case
  proof (cases "n = EndNode")
    case True
    with "1.prems" show ?thesis by (auto simp add: run_from.simps)
  next
    case False
    obtain r l where g: "graph_step e n st lg = (r, l)" by fastforce
    note g1 = graph_step_result[OF g]
    show ?thesis
    proof (cases r)
      case (Inl x)
      with "1.prems" False g g1 show ?thesis by (auto simp: run_from.simps)
    next
      case (Inr p)
      obtain n1 st1 where p: "p = (n1, st1)" by fastforce
      from "1.prems" False g Inr p have rec: "run_from e n1 st1 l = (res, lg')"
        by (simp add: run_from.simps)
      from "1.IH"[OF False g[symmetric] Inr p[symmetric] rec] g1 Inr p
      show ?thesis by (auto intro: prefix_order.trans split: sum.splits)
    qed
  qed
qed

subsection \<open>The step budget\<close>

lemma length_py_range: "length (py_range n) = nat n"
  by (simp add: py_range_def)

text \<open>
  Claim C1.  For every step budget the search loop makes at most that many search
  iterations and always ends, whatever the model returns.  The direct loop
  \<open>_iterative_search_and_refine\<close> is a recursion over \<open>range(max_search_steps)\<close>, a list
  of \<open>max_search_steps\<close> indices (none when the budget is not positive), and a graph run is a
  total function by its termination measure; so each of them returns, a result or an
  exception, in every environment.  The log of the returned run extends the log at the start,
  and it holds at most \<open>max_search_steps\<close> more web searches for the direct loop and at most
  two more, the budget written into \<open>search_node\<close> and the two routing functions, for the
  graph.
\<close>

theorem search_loop_within_budget:
  "(\<exists>res lg'. iterative_search_and_refine e ag st lg = (res, lg')
       \<and> prefix lg lg' \<and> searches lg' \<le> searches lg + nat (max_search_steps ag))
   \<and> length (py_range (max_search_steps ag)) = nat (max_search_steps ag)
   \<and> (\<exists>res lg'. run_graph e gst lg = (res, lg')
       \<and> prefix lg lg' \<and> searches lg' \<le> searches lg + 2)"
proof (intro conjI)
  obtain res lg' where r: "iterative_search_and_refine e ag st lg = (res, lg')"
    by (cases "iterative_search_and_refine e ag st lg")
  then have "search_loop e ag (py_range (max_search_steps ag)) st lg = (res, lg')"
    by (simp add: iterative_search_and_refine_def)
  from search_loop_invariant[OF this]
  have "prefix lg lg' \<and> searches lg' \<le> searches lg + nat (max_search_steps ag)"
    by (simp add: length_py_range)
  with r show "\<exists>res lg'. iterative_search_and_refine e ag st lg = (res, lg')
       \<and> prefix lg lg' \<and> searches lg' \<le> searches lg + nat (max_search_steps ag)"
    by blast
next
  show "length (py_range (max_search_steps ag)) = nat (max_search_steps ag)"
    by (rule length_py_range)
next
  obtain res lg' where r: "run_graph e gst lg = (res, lg')"
    by (cases "run_graph e gst lg")
  then have "run_from e ParseInput gst lg = (res, lg')"
    by (simp add: run_graph_def)
  from run_from_result[OF this]
  have "prefix lg lg' \<and> searches lg' \<le> searches lg + 2"
    by (simp add: searches_left_def)
  with r show "\<exists>res lg'. run_graph e gst lg = (res, lg')
       \<and> prefix lg lg' \<and> searches lg' \<le> searches lg + 2"
    by blast
qed

subsection \<open>Texts\<close>

lemma lit_eq_iff: "lit a = lit b \<longleftrightarrow> a = b"
  by (simp add: lit_def ord_def inj_map_eq_map inj_on_def)

lemma lit_Nil_iff: "lit a = [] \<longleftrightarrow> a = []"
  by (simp add: lit_def)

lemma lit_append: "lit a @ lit b = lit (a @ b)"
  by (simp add: lit_def)

subsection \<open>Evaluator\<close>

lemma search_score_None:
  "\<not> contains_ci u c (lit ''Score:'') \<Longrightarrow> search_score u c = None"
  by (induction c) (auto simp: match_score_def)

lemma search_feedback_None:
  "\<not> contains_ci u c (lit ''Feedback:'') \<Longrightarrow> search_feedback u c = None"
  by (induction c) (auto simp: match_feedback_def)

lemma search_score_skip:
  "(\<forall>i<length pre. match_score u (drop i (pre @ r)) = None)
     \<Longrightarrow> search_score u (pre @ r) = search_score u r"
proof (induction pre)
  case Nil
  then show ?case by simp
next
  case (Cons x xs)
  from Cons.prems have 0: "match_score u (x # xs @ r) = None"
    by (auto dest: spec[of _ 0])
  from Cons.prems have "\<forall>i<length xs. match_score u (drop i (xs @ r)) = None"
    by (auto dest: spec[of _ "Suc i" for i])
  with Cons.IH 0 show ?case by simp
qed

lemma search_feedback_skip:
  "(\<forall>i<length pre. match_feedback u (drop i (pre @ r)) = None)
     \<Longrightarrow> search_feedback u (pre @ r) = search_feedback u r"
proof (induction pre)
  case Nil
  then show ?case by simp
next
  case (Cons x xs)
  from Cons.prems have 0: "match_feedback u (x # xs @ r) = None"
    by (auto dest: spec[of _ 0])
  from Cons.prems have "\<forall>i<length xs. match_feedback u (drop i (xs @ r)) = None"
    by (auto dest: spec[of _ "Suc i" for i])
  with Cons.IH 0 show ?case by simp
qed

lemmas text_eval =
  lit_def ord_def ascii_lower_def ascii_upper_def is_space_def is_digit_def
  ignorecase_match_def is_ascii_letter_def

lemma search_score_sample:
  "search_score u (sample_judgement @ post) = Some (lit ''7.5'')"
  by (simp add: sample_judgement_def match_score_def text_eval)

lemma search_feedback_sample:
  "search_feedback u (sample_judgement @ post) = Some (lit ''looks good'' @ post)"
  by (simp add: sample_judgement_def match_feedback_def text_eval)

lemma dropWhile_all: "list_all P xs \<Longrightarrow> dropWhile P (xs @ ys) = dropWhile P ys"
  by (induction xs) auto

lemma strip_trailing:
  assumes "list_all (is_space u) post"
  shows "strip u (s @ post) = strip u s"
proof (cases "list_all (is_space u) s")
  case True
  with assms have "dropWhile (is_space u) (s @ post) = []" "dropWhile (is_space u) s = []"
    by (auto simp: list_all_iff dropWhile_eq_Nil_conv)
  then show ?thesis by (simp only: strip_def)
next
  case False
  then have "dropWhile (is_space u) (s @ post) = dropWhile (is_space u) s @ post"
    by (auto simp: list_all_iff dropWhile_append)
  moreover from assms have "list_all (is_space u) (rev post)"
    by (simp add: list_all_iff)
  ultimately show ?thesis
    by (simp add: strip_def dropWhile_all)
qed

lemma strip_looks_good: "strip u (lit ''looks good'') = lit ''looks good''"
  by (simp add: strip_def text_eval)

text \<open>
  Claim C5, amended.  Extraction is a function of the response text and of the library (the
  Unicode database and \<open>float\<close>); it makes no call and keeps no state.  Let the sample
  \<open>Score: 7.5\<newline>Feedback: looks good\<close> stand in a text between \<open>pre\<close> and \<open>post\<close>.
  If no match of the score pattern begins in \<open>pre\<close>, the score is \<open>float("7.5")\<close>, which
  is 7.5.  If no match of the feedback pattern begins in \<open>pre\<close> and \<open>post\<close> is
  whitespace, the feedback is \<open>looks good\<close>.  For any text in which the label
  \<open>Score:\<close> matches nowhere, in no case that \<open>re.IGNORECASE\<close> accepts, the score is
  5.0; for any text in which the label \<open>Feedback:\<close> matches nowhere in this sense, the
  feedback is the entire text.
\<close>

theorem extraction_of_score_and_feedback:
  "(float_of e (lit ''7.5'') = 15 / 2
      \<and> (\<forall>i<length pre. match_score (ucd e) (drop i (pre @ sample_judgement @ post)) = None)
     \<longrightarrow> extract_score e (pre @ sample_judgement @ post) = 15 / 2)
   \<and> ((\<forall>i<length pre. match_feedback (ucd e) (drop i (pre @ sample_judgement @ post)) = None)
      \<and> list_all (is_space (ucd e)) post
     \<longrightarrow> extract_feedback e (pre @ sample_judgement @ post) = lit ''looks good'')
   \<and> (\<not> contains_ci (ucd e) c (lit ''Score:'') \<longrightarrow> extract_score e c = 5)
   \<and> (\<not> contains_ci (ucd e) c (lit ''Feedback:'') \<longrightarrow> extract_feedback e c = c)"
proof (intro conjI impI)
  assume a: "float_of e (lit ''7.5'') = 15 / 2
      \<and> (\<forall>i<length pre. match_score (ucd e) (drop i (pre @ sample_judgement @ post)) = None)"
  then have "\<forall>i<length pre. match_score (ucd e) (drop i (pre @ sample_judgement @ post)) = None"
    by (rule conjunct2)
  from search_score_skip[OF this]
  have "search_score (ucd e) (pre @ sample_judgement @ post) = Some (lit ''7.5'')"
    by (simp only: search_score_sample)
  with a show "extract_score e (pre @ sample_judgement @ post) = 15 / 2"
    by (simp only: extract_score_def option.case)
next
  assume a: "(\<forall>i<length pre. match_feedback (ucd e) (drop i (pre @ sample_judgement @ post)) = None)
      \<and> list_all (is_space (ucd e)) post"
  then have "\<forall>i<length pre. match_feedback (ucd e) (drop i (pre @ sample_judgement @ post)) = None"
    by (rule conjunct1)
  from search_feedback_skip[OF this]
  have "search_feedback (ucd e) (pre @ sample_judgement @ post)
      = Some (lit ''looks good'' @ post)"
    by (simp only: search_feedback_sample)
  with a show "extract_feedback e (pre @ sample_judgement @ post) = lit ''looks good''"
    by (simp only: extract_feedback_def option.case strip_trailing strip_looks_good)
next
  assume "\<not> contains_ci (ucd e) c (lit ''Score:'')"
  then show "extract_score e c = 5"
    by (simp add: extract_score_def search_score_None)
next
  assume "\<not> contains_ci (ucd e) c (lit ''Feedback:'')"
  then show "extract_feedback e c = c"
    by (simp add: extract_feedback_def search_feedback_None)
qed

lemma decimal_sample:
  "decimal_value (lit ''7.5'') = 15 / 2" "decimal_value (lit ''3'') = 3"
  "decimal_value (lit ''9'') = 9"
  by (simp_all add: decimal_value_def digits_value_def Let_def lit_def ord_def)

lemma asking_env_library:
  "float_of asking_env = decimal_value" "ucd asking_env = sample_ucd"
  "json_loads asking_env = sample_json_loads"
  by (simp_all add: asking_env_def sample_env_def)

lemma no_match_in_OK:
  "\<forall>i<length (lit ''OK. ''). match_score u (drop i (lit ''OK. '' @ r)) = None"
  "\<forall>i<length (lit ''OK. ''). match_feedback u (drop i (lit ''OK. '' @ r)) = None"
  by (simp_all add: All_less_Suc eval_nat_numeral match_score_def match_feedback_def text_eval)

theorem extraction_of_score_and_feedback_witness:
  "float_of asking_env (lit ''7.5'') = 15 / 2
   \<and> extract_score asking_env (lit ''OK. '' @ sample_judgement @ lit ''\<newline>'') = 15 / 2
   \<and> list_all (is_space (ucd asking_env)) (lit ''\<newline>'')
   \<and> extract_feedback asking_env (lit ''OK. '' @ sample_judgement @ lit ''\<newline>'')
       = lit ''looks good''
   \<and> \<not> contains_ci (ucd asking_env) (lit ''Seven of ten'') (lit ''Score:'')
   \<and> extract_score asking_env (lit ''Seven of ten'') = 5
   \<and> \<not> contains_ci (ucd asking_env) (lit ''Seven of ten'') (lit ''Feedback:'')
   \<and> extract_feedback asking_env (lit ''Seven of ten'') = lit ''Seven of ten''"
proof -
  have 1: "list_all (is_space (ucd asking_env)) (lit ''\<newline>'')"
    by (simp add: text_eval)
  have 2: "\<not> contains_ci (ucd asking_env) (lit ''Seven of ten'') (lit ''Score:'')"
    "\<not> contains_ci (ucd asking_env) (lit ''Seven of ten'') (lit ''Feedback:'')"
    by (simp_all add: text_eval)
  have 3: "float_of asking_env (lit ''7.5'') = 15 / 2"
    by (simp add: asking_env_library decimal_sample)
  from extraction_of_score_and_feedback[of asking_env "lit ''OK. ''" "lit ''\<newline>''"
      "lit ''Seven of ten''"] 1 2 3
    no_match_in_OK[of "ucd asking_env" "sample_judgement @ lit ''\<newline>''"]
  show ?thesis
    by blast
qed

text \<open>
  The claim as it was stated fails in four ways.  Text after the sample becomes part of the
  feedback; a score label before the sample gives the score; a label in lower case is a
  label, so that a text without \<open>Score:\<close> has another score than 5.0 and a text without
  \<open>Feedback:\<close> another feedback than the entire text.
\<close>

theorem extraction_containing_counterexample:
  "contains (sample_judgement @ lit ''\<newline>Thanks.'') sample_judgement
   \<and> extract_feedback asking_env (sample_judgement @ lit ''\<newline>Thanks.'')
       = lit ''looks good\<newline>Thanks.''
   \<and> contains (lit ''Score: 3\<newline>'' @ sample_judgement) sample_judgement
   \<and> extract_score asking_env (lit ''Score: 3\<newline>'' @ sample_judgement) = 3
   \<and> \<not> contains (lit ''score: 9'') (lit ''Score:'')
   \<and> extract_score asking_env (lit ''score: 9'') = 9
   \<and> \<not> contains (lit ''feedback: fine'') (lit ''Feedback:'')
   \<and> extract_feedback asking_env (lit ''feedback: fine'') = lit ''fine''"
  by (simp add: extract_feedback_def extract_score_def match_feedback_def match_score_def
        sample_judgement_def strip_def asking_env_library decimal_value_def digits_value_def
        Let_def text_eval)

subsection \<open>Self-evolution\<close>

lemma systems_differ: "evaluate_answer_system \<noteq> revise_system"
  by (simp add: evaluate_answer_system_def revise_system_def)

lemma is_evaluation_eval: "is_evaluation (Generated (evaluate_answer_request q a) c)"
  by (simp add: is_evaluation_def evaluate_answer_request_def)

lemma is_revision_eval: "\<not> is_revision (Generated (evaluate_answer_request q a) c)"
  using systems_differ by (simp add: is_revision_def evaluate_answer_request_def)

lemma is_evaluation_rev: "\<not> is_evaluation (Generated (revise_request q a f) c)"
  using systems_differ by (auto simp add: is_evaluation_def revise_request_def)

lemma is_revision_rev: "is_revision (Generated (revise_request q a f) c)"
  by (simp add: is_revision_def revise_request_def)

lemma judged_eval: "judged_answer (Generated (evaluate_answer_request q a) c) = Some a"
  by (simp add: judged_answer_def evaluate_answer_request_def)

lemmas round_events =
  is_evaluation_eval is_revision_eval is_evaluation_rev is_revision_rev judged_eval

lemma evolve_variant_loop_trace:
  "evolve_variant_loop e q n cur lg = (r, lg') \<Longrightarrow>
   \<exists>tr. lg' = lg @ tr
      \<and> evolution_rounds e q cur n lg tr r
      \<and> list_all (\<lambda>ev. is_evaluation ev \<or> is_revision ev) tr
      \<and> length (filter is_evaluation tr) \<le> n
      \<and> length (filter is_revision tr) \<le> n
      \<and> (\<forall>ev \<in> set (butlast tr). is_evaluation ev \<longrightarrow> observed_score e ev < 8)
      \<and> (tr \<noteq> [] \<and> is_evaluation (last tr) \<and> observed_score e (last tr) \<ge> 8
           \<longrightarrow> judged_answer (last tr) = Some r)"
proof (induction n arbitrary: cur lg)
  case 0
  then show ?case by simp
next
  case (Suc n)
  define c where "c = llm e lg (evaluate_answer_request q cur)"
  define E where "E = Generated (evaluate_answer_request q cur) c"
  have ev: "evaluate_answer e q cur lg = ((extract_score e c, extract_feedback e c), lg @ [E])"
    by (simp add: evaluate_answer_def invoke_model_def c_def E_def Let_def)
  show ?case
  proof (cases "extract_score e c \<ge> 8")
    case True
    with Suc.prems ev have "r = cur" "lg' = lg @ [E]" by auto
    then show ?thesis using True
      by (intro exI[of _ "[E]"]) (simp add: E_def c_def round_events)
  next
    case False
    define c2 where "c2 = llm e (lg @ [E]) (revise_request q cur (extract_feedback e c))"
    define R where "R = Generated (revise_request q cur (extract_feedback e c)) c2"
    have rv: "revise_with_feedback e q cur (extract_feedback e c) (lg @ [E]) = (c2, lg @ [E] @ [R])"
      by (simp add: revise_with_feedback_def invoke_model_def c2_def R_def Let_def)
    from Suc.prems ev False rv
    have "evolve_variant_loop e q n c2 (lg @ [E] @ [R]) = (r, lg')" by simp
    from Suc.IH[OF this] obtain tr where tr:
      "lg' = (lg @ [E] @ [R]) @ tr"
      "evolution_rounds e q c2 n (lg @ [E] @ [R]) tr r"
      "list_all (\<lambda>ev. is_evaluation ev \<or> is_revision ev) tr"
      "length (filter is_evaluation tr) \<le> n"
      "length (filter is_revision tr) \<le> n"
      "\<forall>ev \<in> set (butlast tr). is_evaluation ev \<longrightarrow> observed_score e ev < 8"
      "tr \<noteq> [] \<and> is_evaluation (last tr) \<and> observed_score e (last tr) \<ge> 8
           \<longrightarrow> judged_answer (last tr) = Some r" by blast
    have sc: "observed_score e E < 8" using False by (simp add: observed_score_def E_def)
    have rounds: "evolution_rounds e q cur (Suc n) lg (E # R # tr) r"
      using tr(2) False by (simp add: E_def R_def c_def c2_def)
    show ?thesis
      using tr sc rounds
      by (intro exI[of _ "E # R # tr"]) (auto simp: E_def R_def round_events)
  qed
qed

text \<open>
  Claim C6.  For every bound \<open>num_iterations\<close> (\<open>range\<close> is empty when it is not
  positive), the events that one run of \<open>_evolve_variant\<close> adds to the log are the
  evaluate-revise rounds of the specification, at most \<open>num_iterations\<close> of them: each
  round judges the current text, which is the variant in the first round and the latest
  revision afterwards; a score below 8.0 is followed by the revision of the judged text with
  the judge's feedback; a score of 8.0 or more ends the run with no further call, whatever
  is left of the bound, and the text returned is the one judged then; when the bound is
  used up the text returned is the latest revision.  So the run adds judge calls and revision
  calls only, at most \<open>num_iterations\<close> of each, and every judge call but the last one of
  the run saw a score below 8.0.
\<close>

theorem evolve_variant_rounds:
  assumes "evolve_variant e q v n lg = (r, lg')"
  shows "\<exists>tr. lg' = lg @ tr
      \<and> evolution_rounds e q v (nat n) lg tr r
      \<and> list_all (\<lambda>ev. is_evaluation ev \<or> is_revision ev) tr
      \<and> length (filter is_evaluation tr) \<le> nat n
      \<and> length (filter is_revision tr) \<le> nat n
      \<and> (\<forall>ev \<in> set (butlast tr). is_evaluation ev \<longrightarrow> observed_score e ev < 8)
      \<and> (tr \<noteq> [] \<and> is_evaluation (last tr) \<and> observed_score e (last tr) \<ge> 8
           \<longrightarrow> judged_answer (last tr) = Some r)"
  using assms unfolding evolve_variant_def by (rule evolve_variant_loop_trace)

text \<open>
  A run of at most three rounds with a judge that gives 5 and then 9: the draft is judged
  and revised, the revision is judged, and the run ends with the revision.
\<close>

lemma judging_env_library:
  "float_of judging_env = decimal_value" "ucd judging_env = sample_ucd"
  "llm judging_env = judge_reply"
  by (simp_all add: judging_env_def sample_env_def)

lemma judgement_scores:
  "extract_score judging_env (lit ''Score: 5\<newline>Feedback: add detail'') = 5"
  "extract_score judging_env (lit ''Score: 9\<newline>Feedback: fine'') = 9"
  "extract_feedback judging_env (lit ''Score: 5\<newline>Feedback: add detail'') = lit ''add detail''"
  by (simp_all add: extract_score_def extract_feedback_def match_score_def match_feedback_def
        strip_def judging_env_library decimal_value_def digits_value_def Let_def text_eval)

lemma evolve_variant_sample:
  "evolve_variant judging_env (lit ''q'') (lit ''draft'') 3 [] =
     (lit ''better'',
      [Generated (evaluate_answer_request (lit ''q'') (lit ''draft''))
         (lit ''Score: 5\<newline>Feedback: add detail''),
       Generated (revise_request (lit ''q'') (lit ''draft'') (lit ''add detail'')) (lit ''better''),
       Generated (evaluate_answer_request (lit ''q'') (lit ''better''))
         (lit ''Score: 9\<newline>Feedback: fine'')])"
proof -
  have 1: "judge_reply [] (evaluate_answer_request a b) = lit ''Score: 5\<newline>Feedback: add detail''"
    for a b
    using systems_differ by (simp add: judge_reply_def evaluate_answer_request_def)
  have 2: "judge_reply lg (revise_request a b c) = lit ''better''" for lg a b c
    by (simp add: judge_reply_def revise_request_def)
  have 3: "judge_reply (x # lg) (evaluate_answer_request a b) = lit ''Score: 9\<newline>Feedback: fine''"
    for x lg a b
    using systems_differ by (simp add: judge_reply_def evaluate_answer_request_def)
  show ?thesis
    by (simp add: evolve_variant_def numeral_3_eq_3 evaluate_answer_def revise_with_feedback_def
          invoke_model_def Let_def judging_env_library 1 2 3 judgement_scores)
qed

theorem evolve_variant_rounds_witness:
  "evolve_variant judging_env (lit ''q'') (lit ''draft'') 3 [] =
     (lit ''better'',
      [Generated (evaluate_answer_request (lit ''q'') (lit ''draft''))
         (lit ''Score: 5\<newline>Feedback: add detail''),
       Generated (revise_request (lit ''q'') (lit ''draft'') (lit ''add detail'')) (lit ''better''),
       Generated (evaluate_answer_request (lit ''q'') (lit ''better''))
         (lit ''Score: 9\<newline>Feedback: fine'')])
   \<and> (\<exists>tr. [Generated (evaluate_answer_request (lit ''q'') (lit ''draft''))
         (lit ''Score: 5\<newline>Feedback: add detail''),
       Generated (revise_request (lit ''q'') (lit ''draft'') (lit ''add detail'')) (lit ''better''),
       Generated (evaluate_answer_request (lit ''q'') (lit ''better''))
         (lit ''Score: 9\<newline>Feedback: fine'')] = [] @ tr
      \<and> evolution_rounds judging_env (lit ''q'') (lit ''draft'') (nat 3) [] tr (lit ''better'')
      \<and> list_all (\<lambda>ev. is_evaluation ev \<or> is_revision ev) tr
      \<and> length (filter is_evaluation tr) \<le> nat 3
      \<and> length (filter is_revision tr) \<le> nat 3
      \<and> (\<forall>ev \<in> set (butlast tr). is_evaluation ev \<longrightarrow> observed_score judging_env ev < 8)
      \<and> (tr \<noteq> [] \<and> is_evaluation (last tr) \<and> observed_score judging_env (last tr) \<ge> 8
           \<longrightarrow> judged_answer (last tr) = Some (lit ''better'')))"
  using evolve_variant_sample evolve_variant_rounds[OF evolve_variant_sample]
  by (rule conjI)

subsection \<open>Sample runs\<close>

lemma format_plan_sample:
  "format_plan e (default_plan q) = Inr (lit ''1. General Research\<newline>   - '' @ q)"
  by (simp add: format_plan_def default_plan_def dict_get_def iterate_def format_section_def
        first_three_def py_str_def show_nat.simps lit_def ord_def)

lemma plan_text_sample:
  "plan_text e line (default_plan q) = Inr (line 0 (lit ''General Research''))"
  by (simp add: plan_text_def default_plan_def dict_get_def iterate_def py_str_def)

lemma strip_Zoning: "strip u (lit ''Zoning?'') = lit ''Zoning?''"
  by (simp add: strip_def text_eval)

lemma upper_Zoning: "contains (upper u (lit ''Zoning?'')) (lit ''DONE'') = False"
  by (simp add: upper_def text_eval)

lemma asking_env_services:
  "llm asking_env lg r = lit ''Zoning?''"
  "web_search_tool asking_env lg q = lit ''results for '' @ q"
  "vector_store asking_env = None"
  "clock asking_env lg = lit ''2024-01-01T00:00:00''"
  by (simp_all add: asking_env_def sample_env_def)

lemmas sample_services =
  asking_env_services invoke_model_def invoke_search_def read_clock_def kb_lookup_def Let_def

lemma search_step_asking:
  assumes "plan st = default_plan a"
  shows "search_step asking_env sample_agent step st lg =
     (Inr (Some (asked_once st)),
      lg @ [Generated (search_question_request st (lit ''1. General Research\<newline>   - '' @ a))
              (lit ''Zoning?''),
            Searched (lit ''Zoning?'') (lit ''results for '' @ lit ''Zoning?''),
            Generated (answer_request (lit ''Zoning?'') (lit ''results for '' @ lit ''Zoning?'') [])
              (lit ''Zoning?''),
            ClockRead (lit ''2024-01-01T00:00:00''),
            Generated (denoise_request
               (add_search_result st (lit ''Zoning?'') (lit ''Zoning?'') None
                  (lit ''2024-01-01T00:00:00'')))
              (lit ''Zoning?'')])"
  using assms
  by (simp add: search_step_def generate_search_question_def asked_once_def
        format_plan_sample sample_services strip_Zoning search_and_answer_def sample_agent_def
        denoise_draft_def lit_eq_iff lit_Nil_iff)

lemma search_node_asking:
  assumes "plan_g gst = default_plan a" and "step_count gst < 2"
  shows "search_node asking_env gst lg =
     (Inr (no_update\<lparr>u_search_history :=
               Some (search_history_g gst @ [(lit ''Zoning?'', lit ''Zoning?'')]),
             u_step_count := Some (step_count gst + 1),
             u_messages := [step_message (step_count gst) (lit ''Zoning?'')]\<rparr>),
      lg @ [Generated (graph_question_request gst (bullet_line 0 (lit ''General Research'')))
              (lit ''Zoning?''),
            Searched (lit ''Zoning?'') (lit ''results for '' @ lit ''Zoning?''),
            Generated (graph_answer_request (lit ''Zoning?'') (lit ''results for '' @ lit ''Zoning?'') [])
              (lit ''Zoning?'')])"
proof -
  from assms(2) have ne: "(step_count gst mod 2 = 0 \<and> 0 < step_count gst) = False"
    by presburger
  show ?thesis
    using assms
    by (simp add: search_node_def plan_text_sample sample_services strip_Zoning upper_Zoning
          search_and_record_def ne)
qed

lemma step_message_goes_on:
  "contains (lower (ucd asking_env) (0x1F50D # lit '' Step '' @ show_int 1 @ lit '': ''
       @ take 80 (lit ''Zoning?'') @ lit ''...'')) (lit ''complete'') = False"
  "contains (lower (ucd asking_env) (0x1F50D # lit '' Step '' @ show_int 2 @ lit '': ''
       @ take 80 (lit ''Zoning?'') @ lit ''...'')) (lit ''complete'') = False"
  by (simp_all add: lower_def asking_env_library sample_ucd_def show_int_def show_nat.simps
        text_eval)

lemma run_from_sample:
  "map_sum id search_history_g (fst (run_from asking_env SearchNode started_graph_state []))
     = Inr [(lit ''Soil?'', lit ''Clay.''), (lit ''Zoning?'', lit ''Zoning?''),
            (lit ''Zoning?'', lit ''Zoning?'')]"
  by (simp add: run_from.simps graph_step_def run_node_def next_node_def
        search_node_asking started_graph_state_def sample_graph_state_def apply_update_def
        no_update_def should_continue_search_def after_denoise_routing_def content_attr_def
        step_message_def step_text_def step_message_goes_on
        denoise_node_def final_report_node_def sample_services)

lemma finished_env_services:
  "llm finished_env lg r = lit ''DONE''"
  "json_loads finished_env = sample_json_loads"
  "ucd finished_env = sample_ucd"
  by (simp_all add: finished_env_def sample_env_def)

lemma strip_DONE: "strip u (lit ''DONE'') = lit ''DONE''"
  by (simp add: strip_def text_eval)

lemma upper_DONE: "contains (upper u (lit ''DONE'')) (lit ''DONE'')"
  by (simp add: upper_def text_eval)

lemma generate_plan_finished:
  "generate_plan finished_env a b lg =
     (Inr (default_plan a),
      lg @ [Generated (plan_request (lit ''Address: '' @ a @ (if b \<noteq> [] then lit ''\<newline>Brief: '' @ b else [])))
              (lit ''DONE'')])"
  by (simp add: generate_plan_def invoke_model_def finished_env_services sample_json_loads_def
        find_char_def Let_def lit_eq_iff) (simp add: lit_def ord_def)

lemma plan_sections_len_default: "plan_sections_len (default_plan a) = Inr 1"
  by (simp add: plan_sections_len_def default_plan_def dict_get_def py_len_def)

lemma complete_message_routes:
  "messages st \<noteq> [] \<Longrightarrow> last (messages st) = research_complete
     \<Longrightarrow> should_continue_search e st = Inr FinalReport"
  using lower_complete[of "ucd e" "0x2713"]
  by (simp add: should_continue_search_def research_complete_def content_attr_def)

lemma run_graph_finished:
  "map_sum id search_history_g (fst (run_graph finished_env started_graph_state [])) = Inr []"
  by (simp add: run_graph_def run_from.simps graph_step_def run_node_def next_node_def
        parse_input_node_def stage1_plan_node_def stage2_draft_node_def search_node_def
        final_report_node_def generate_plan_finished plan_sections_len_default plan_text_sample
        started_graph_state_def sample_graph_state_def apply_update_def no_update_def
        message_text_def invoke_model_def finished_env_services strip_DONE upper_DONE
        complete_message_routes Let_def)

subsection \<open>The search history\<close>

lemma initial_draft_stage_frame:
  "initial_draft_stage e ag st lg = (Inr st1, lg1) \<Longrightarrow>
     search_history st1 = search_history st \<and> revision_count st1 = revision_count st
     \<and> plan st1 = plan st \<and> query st1 = query st \<and> brief st1 = brief st"
  by (auto simp: initial_draft_stage_def split: if_splits sum.splits prod.splits)

text \<open>
  Claim C9, amended.  Once the state of a run is set up, the search history only grows, and
  only at its end.  Of the two operations of \<open>AgentState\<close>, \<open>add_search_result\<close> appends
  exactly one result, built from its arguments, and \<open>update_draft\<close> leaves the history as
  it is.  In the direct variant the initial draft leaves it as it is, one completed pass of
  the loop appends exactly one result, and the history at the start of the loop is a prefix
  of the history at its end, so that nothing is removed or reordered and the length does not
  decrease.  In the graph variant the update of \<open>search_node\<close> leaves the history as it is
  or appends one pair, the updates of \<open>denoise_node\<close> and \<open>final_report_node\<close> leave it
  as it is, and the history of the state from which a run goes on at any node after the
  entry node is a prefix of the history at the end of the run.  The entry node
  \<open>parse_input_node\<close> is the exception: it sets the history to the empty list, whatever
  the history of the state it is given.
\<close>

theorem search_history_append_only:
  "search_history (add_search_result st q a srcs ts)
      = search_history st @
          [\<lparr>question = q, answer = a, sources = (case srcs of None \<Rightarrow> [] | Some ss \<Rightarrow> ss),
            timestamp = ts, score = 0\<rparr>]
   \<and> search_history (update_draft st d) = search_history st
   \<and> (fst (initial_draft_stage e ag st lg) = Inr st0 \<longrightarrow> search_history st0 = search_history st)
   \<and> (fst (search_step e ag step st lg) = Inr (Some st1)
        \<longrightarrow> (\<exists>r. search_history st1 = search_history st @ [r]))
   \<and> (fst (iterative_search_and_refine e ag st lg) = Inr st2
        \<longrightarrow> prefix (search_history st) (search_history st2)
            \<and> length (search_history st) \<le> length (search_history st2))
   \<and> (fst (search_node e gst lg) = Inr u
        \<longrightarrow> search_history_g (apply_update gst u) = search_history_g gst
            \<or> (\<exists>q' a'. search_history_g (apply_update gst u) = search_history_g gst @ [(q', a')]))
   \<and> search_history_g (apply_update gst (fst (denoise_node e gst lg))) = search_history_g gst
   \<and> search_history_g (apply_update gst (fst (final_report_node e gst lg))) = search_history_g gst
   \<and> search_history_g (apply_update gst (parse_input_node gst)) = []
   \<and> (n \<noteq> ParseInput \<and> map_sum id search_history_g (fst (run_from e n gst lg)) = Inr h
        \<longrightarrow> prefix (search_history_g gst) h \<and> length (search_history_g gst) \<le> length h)"
proof (intro conjI impI)
  show "search_history (add_search_result st q a srcs ts)
      = search_history st @
          [\<lparr>question = q, answer = a, sources = (case srcs of None \<Rightarrow> [] | Some ss \<Rightarrow> ss),
            timestamp = ts, score = 0\<rparr>]"
    by (simp add: add_search_result_def)
next
  show "search_history (update_draft st d) = search_history st"
    by (simp add: update_draft_def)
next
  assume "fst (initial_draft_stage e ag st lg) = Inr st0"
  then obtain lg1 where "initial_draft_stage e ag st lg = (Inr st0, lg1)"
    by (cases "initial_draft_stage e ag st lg") simp
  from initial_draft_stage_frame[OF this] show "search_history st0 = search_history st"
    by simp
next
  assume "fst (search_step e ag step st lg) = Inr (Some st1)"
  then obtain lg1 where "search_step e ag step st lg = (Inr (Some st1), lg1)"
    by (cases "search_step e ag step st lg") simp
  from search_step_searches[OF this] show "\<exists>r. search_history st1 = search_history st @ [r]"
    by simp
next
  assume "fst (iterative_search_and_refine e ag st lg) = Inr st2"
  then obtain lg1 where
    "search_loop e ag (py_range (max_search_steps ag)) st lg = (Inr st2, lg1)"
    by (cases "iterative_search_and_refine e ag st lg")
       (simp add: iterative_search_and_refine_def)
  from search_loop_invariant[OF this]
  show p: "prefix (search_history st) (search_history st2)"
    by simp
  then show "length (search_history st) \<le> length (search_history st2)"
    by (rule prefix_length_le)
next
  assume "fst (search_node e gst lg) = Inr u"
  then obtain lg1 where "search_node e gst lg = (Inr u, lg1)"
    by (cases "search_node e gst lg") simp
  from search_node_result[OF this]
  show "search_history_g (apply_update gst u) = search_history_g gst
        \<or> (\<exists>q' a'. search_history_g (apply_update gst u) = search_history_g gst @ [(q', a')])"
    by (auto simp: history_apply no_update_def)
next
  obtain u lg1 where "denoise_node e gst lg = (u, lg1)"
    by (cases "denoise_node e gst lg")
  with denoise_result[OF this]
  show "search_history_g (apply_update gst (fst (denoise_node e gst lg))) = search_history_g gst"
    by (simp add: history_apply)
next
  obtain u lg1 where "final_report_node e gst lg = (u, lg1)"
    by (cases "final_report_node e gst lg")
  with final_result[OF this]
  show "search_history_g (apply_update gst (fst (final_report_node e gst lg))) = search_history_g gst"
    by (simp add: history_apply)
next
  show "search_history_g (apply_update gst (parse_input_node gst)) = []"
    by (simp add: history_apply parse_input_node_def no_update_def Let_def)
next
  assume h: "n \<noteq> ParseInput \<and> map_sum id search_history_g (fst (run_from e n gst lg)) = Inr h"
  then obtain gst' lg1 where r: "run_from e n gst lg = (Inr gst', lg1)"
      and g: "search_history_g gst' = h"
    by (cases "run_from e n gst lg"; cases "fst (run_from e n gst lg)") auto
  from run_from_result[OF r] h g
  show p: "prefix (search_history_g gst) h"
    by simp
  then show "length (search_history_g gst) \<le> length h"
    by (rule prefix_length_le)
qed


lemma started_state_plan: "plan started_state = default_plan (lit ''1 Main St'')"
  by (simp add: started_state_def sample_state_def)

lemma initial_draft_sample:
  "fst (initial_draft_stage asking_env sample_agent started_state [])
     = Inr (started_state\<lparr>draft_report := lit ''Zoning?''\<rparr>)"
  by (simp add: initial_draft_stage_def generate_initial_draft_def sample_agent_def
        started_state_plan format_plan_sample sample_services)

lemma search_step_sample:
  "fst (search_step asking_env sample_agent 0 started_state []) = Inr (Some (asked_once started_state))"
  by (simp add: search_step_asking[OF started_state_plan])

lemma search_loop_sample:
  "fst (iterative_search_and_refine asking_env sample_agent started_state [])
     = Inr (asked_once started_state)"
proof -
  have r: "py_range (max_search_steps sample_agent) = [0]"
    by (simp add: py_range_def sample_agent_def)
  show ?thesis
    by (simp add: iterative_search_and_refine_def r search_step_asking[OF started_state_plan])
qed

lemma search_node_sample:
  "fst (search_node asking_env started_graph_state [])
     = Inr (no_update\<lparr>u_search_history :=
               Some [(lit ''Soil?'', lit ''Clay.''), (lit ''Zoning?'', lit ''Zoning?'')],
              u_step_count := Some 1, u_messages := [step_message 0 (lit ''Zoning?'')]\<rparr>)"
proof -
  have "plan_g started_graph_state = default_plan (lit ''1 Main St'')"
    and "step_count started_graph_state < 2"
    and "step_count started_graph_state = 0"
    and "search_history_g started_graph_state = [(lit ''Soil?'', lit ''Clay.'')]"
    by (simp_all add: started_graph_state_def sample_graph_state_def)
  with search_node_asking[of started_graph_state "lit ''1 Main St''" "[]"] show ?thesis
    by simp
qed

lemma asked_once_history:
  "search_history (asked_once st) =
     search_history st @
       [\<lparr>question = lit ''Zoning?'', answer = lit ''Zoning?'', sources = [],
         timestamp = lit ''2024-01-01T00:00:00'', score = 0\<rparr>]"
  by (simp add: asked_once_def update_draft_def add_search_result_def)

text \<open>
  Runs that start with one recorded search: the direct loop and the graph from the search
  node on keep the old entry in front of the new ones.
\<close>

theorem search_history_append_only_witness:
  "length (search_history started_state) = 1
   \<and> fst (initial_draft_stage asking_env sample_agent started_state [])
       = Inr (started_state\<lparr>draft_report := lit ''Zoning?''\<rparr>)
   \<and> search_history (started_state\<lparr>draft_report := lit ''Zoning?''\<rparr>)
       = search_history started_state
   \<and> fst (search_step asking_env sample_agent 0 started_state [])
       = Inr (Some (asked_once started_state))
   \<and> fst (iterative_search_and_refine asking_env sample_agent started_state [])
       = Inr (asked_once started_state)
   \<and> prefix (search_history started_state) (search_history (asked_once started_state))
   \<and> length (search_history (asked_once started_state)) = 2
   \<and> fst (search_node asking_env started_graph_state [])
       = Inr (no_update\<lparr>u_search_history :=
               Some [(lit ''Soil?'', lit ''Clay.''), (lit ''Zoning?'', lit ''Zoning?'')],
              u_step_count := Some 1, u_messages := [step_message 0 (lit ''Zoning?'')]\<rparr>)
   \<and> SearchNode \<noteq> ParseInput
   \<and> map_sum id search_history_g (fst (run_from asking_env SearchNode started_graph_state []))
       = Inr [(lit ''Soil?'', lit ''Clay.''), (lit ''Zoning?'', lit ''Zoning?''),
              (lit ''Zoning?'', lit ''Zoning?'')]
   \<and> prefix (search_history_g started_graph_state)
        [(lit ''Soil?'', lit ''Clay.''), (lit ''Zoning?'', lit ''Zoning?''),
         (lit ''Zoning?'', lit ''Zoning?'')]"
  using search_history_append_only[where e = asking_env and ag = sample_agent
      and st = started_state and lg = "[]" and step = 0
      and ?st0.0 = "started_state\<lparr>draft_report := lit ''Zoning?''\<rparr>"
      and ?st1.0 = "asked_once started_state"
      and ?st2.0 = "asked_once started_state"
      and gst = started_graph_state
      and u = "no_update\<lparr>u_search_history :=
               Some [(lit ''Soil?'', lit ''Clay.''), (lit ''Zoning?'', lit ''Zoning?'')],
              u_step_count := Some 1, u_messages := [step_message 0 (lit ''Zoning?'')]\<rparr>"
      and n = SearchNode
      and h = "[(lit ''Soil?'', lit ''Clay.''), (lit ''Zoning?'', lit ''Zoning?''),
                (lit ''Zoning?'', lit ''Zoning?'')]"]
  by (simp add: initial_draft_sample search_step_sample search_loop_sample search_node_sample
        run_from_sample asked_once_history)
     (simp add: started_state_def started_graph_state_def)

text \<open>
  The claim as it was stated fails at the entry node of the graph: a run from a state
  that holds one recorded search ends, when the model answers \<open>DONE\<close>, with an empty
  history.
\<close>

theorem search_history_reset_counterexample:
  "search_history_g started_graph_state = [(lit ''Soil?'', lit ''Clay.'')]
   \<and> map_sum id search_history_g (fst (run_graph finished_env started_graph_state [])) = Inr []
   \<and> search_history_g (apply_update started_graph_state (parse_input_node started_graph_state)) = []"
  by (simp add: run_graph_finished)
     (simp add: started_graph_state_def sample_graph_state_def apply_update_def
        parse_input_node_def no_update_def Let_def)

subsection \<open>The revision counter\<close>

lemma generate_plan_searches:
  "generate_plan e q b lg = (r, lg') \<Longrightarrow> searches lg' = searches lg \<and> prefix lg lg'"
  by (auto simp: generate_plan_def Let_def split: prod.splits option.splits if_splits
        dest: invoke_model_searches)

lemma initial_draft_stage_searches:
  "initial_draft_stage e ag st lg = (r, lg') \<Longrightarrow> searches lg' = searches lg \<and> prefix lg lg'"
  by (auto simp: initial_draft_stage_def generate_initial_draft_def
        split: if_splits sum.splits prod.splits dest: invoke_model_searches)

lemma run_result:
  assumes "run e ag a b lg = (Inr st, lg')"
  shows "prefix lg lg'
     \<and> length (search_history st) = searches lg' - searches lg
     \<and> revision_count st = (if use_diffusion ag then int (length (search_history st)) else 0)"
proof -
  from assms obtain p lg1 n st2 lg2 st3 lg3 r where
    gp: "generate_plan e a b lg = (Inr p, lg1)" and
    ds: "initial_draft_stage e ag ((new_AgentState a b)\<lparr>plan := p\<rparr>) lg1 = (Inr st2, lg2)" and
    lp: "search_loop e ag (py_range (max_search_steps ag)) st2 lg2 = (Inr st3, lg3)" and
    fr: "generate_final_report e ag st3 lg3 = (r, lg')" and
    st: "st = st3\<lparr>final_report := r\<rparr>"
    by (auto simp: run_def iterative_search_and_refine_def split: sum.splits prod.splits)
  from generate_plan_searches[OF gp] have 1: "searches lg1 = searches lg" "prefix lg lg1"
    by simp_all
  from initial_draft_stage_searches[OF ds] have 2: "searches lg2 = searches lg1" "prefix lg1 lg2"
    by simp_all
  from initial_draft_stage_frame[OF ds]
  have 3: "search_history st2 = []" "revision_count st2 = 0"
    by (simp_all add: new_AgentState_def)
  from search_loop_invariant[OF lp] have 4: "prefix lg2 lg3"
    "length (search_history st3) = length (search_history st2) + (searches lg3 - searches lg2)"
    "revision_count st3 = revision_count st2
       + (if use_diffusion ag then int (searches lg3 - searches lg2) else 0)"
    by simp_all
  from fr have 5: "searches lg' = searches lg3" "prefix lg3 lg'"
    by (auto simp: generate_final_report_def dest: invoke_model_searches)
  from 1 2 4 5 have "prefix lg lg'"
    by (meson prefix_order.trans)
  moreover have "length (search_history st) = searches lg' - searches lg"
    using 1 2 3 4 5 st by simp
  moreover have "revision_count st = (if use_diffusion ag then int (length (search_history st)) else 0)"
    using 1 2 3 4 5 st by simp
  ultimately show ?thesis by simp
qed

lemma generate_plan_asking:
  "generate_plan asking_env a [] lg =
     (Inr (default_plan a), lg @ [Generated (plan_request (lit ''Address: '' @ a)) (lit ''Zoning?'')])"
  by (simp add: generate_plan_def sample_services asking_env_library sample_json_loads_def
        find_char_def lit_eq_iff) (simp add: lit_def ord_def)

lemma run_sample:
  "run asking_env sample_agent (lit ''1 Main St'') [] [] =
     (Inr ((asked_once (sample_state\<lparr>draft_report := lit ''Zoning?''\<rparr>))\<lparr>final_report := lit ''Zoning?''\<rparr>),
      [Generated (plan_request (lit ''Address: '' @ lit ''1 Main St'')) (lit ''Zoning?''),
       Generated (initial_draft_request sample_state
                    (lit ''1. General Research\<newline>   - '' @ lit ''1 Main St'')) (lit ''Zoning?''),
       Generated (search_question_request (sample_state\<lparr>draft_report := lit ''Zoning?''\<rparr>)
                    (lit ''1. General Research\<newline>   - '' @ lit ''1 Main St'')) (lit ''Zoning?''),
       Searched (lit ''Zoning?'') (lit ''results for '' @ lit ''Zoning?''),
       Generated (answer_request (lit ''Zoning?'') (lit ''results for '' @ lit ''Zoning?'') [])
         (lit ''Zoning?''),
       ClockRead (lit ''2024-01-01T00:00:00''),
       Generated (denoise_request
          (add_search_result (sample_state\<lparr>draft_report := lit ''Zoning?''\<rparr>)
             (lit ''Zoning?'') (lit ''Zoning?'') None (lit ''2024-01-01T00:00:00''))) (lit ''Zoning?''),
       Generated (final_report_request sample_agent
                    (asked_once (sample_state\<lparr>draft_report := lit ''Zoning?''\<rparr>))) (lit ''Zoning?'')])"
proof -
  have st: "(new_AgentState (lit ''1 Main St'') [])\<lparr>plan := default_plan (lit ''1 Main St'')\<rparr>
      = sample_state"
    by (simp add: sample_state_def)
  have ds: "initial_draft_stage asking_env sample_agent sample_state lg =
      (Inr (sample_state\<lparr>draft_report := lit ''Zoning?''\<rparr>),
       lg @ [Generated (initial_draft_request sample_state
                (lit ''1. General Research\<newline>   - '' @ lit ''1 Main St'')) (lit ''Zoning?'')])" for lg
    by (simp add: initial_draft_stage_def generate_initial_draft_def sample_agent_def
          sample_state_def format_plan_sample sample_services)
  have p: "plan (sample_state\<lparr>draft_report := lit ''Zoning?''\<rparr>) = default_plan (lit ''1 Main St'')"
    by (simp add: sample_state_def)
  have r: "py_range (max_search_steps sample_agent) = [0]"
    by (simp add: py_range_def sample_agent_def)
  show ?thesis
    by (simp add: run_def generate_plan_asking plan_sections_len_default st ds
          iterative_search_and_refine_def r search_step_asking[OF p] generate_final_report_def
          sample_services)
qed

lemma search_step_finished:
  assumes "plan st = default_plan a"
  shows "search_step finished_env ag step st lg =
     (Inr None,
      lg @ [Generated (search_question_request st (lit ''1. General Research\<newline>   - '' @ a))
              (lit ''DONE'')])"
  using assms
  by (simp add: search_step_def generate_search_question_def format_plan_sample invoke_model_def
        finished_env_services strip_DONE Let_def)

text \<open>
  Claim C3, amended.  After a run with \<open>use_diffusion\<close> enabled, \<open>revision_count\<close> is
  the number of completed search iterations, that is, of the passes of the loop that did not
  end it; this is also the length of the search history and the number of web searches of
  the run.  Nothing is added for the initial draft: the initial draft stage leaves the counter
  as it is.  Each completed pass adds one to the counter and makes one web search; the pass
  that ends the loop leaves the state as it is and makes no web search.  Without
  \<open>use_diffusion\<close> the counter stays 0.
\<close>

theorem revision_count_after_run:
  "(fst (run e ag a b lg) = Inr st \<longrightarrow>
       revision_count st = (if use_diffusion ag then int (length (search_history st)) else 0)
       \<and> length (search_history st) = searches (snd (run e ag a b lg)) - searches lg)
   \<and> (fst (initial_draft_stage e ag st0 lg0) = Inr st1 \<longrightarrow> revision_count st1 = revision_count st0)
   \<and> (fst (search_step e ag step st0 lg0) = Inr (Some st2) \<longrightarrow>
        revision_count st2 = revision_count st0 + (if use_diffusion ag then 1 else 0)
        \<and> searches (snd (search_step e ag step st0 lg0)) = Suc (searches lg0))
   \<and> (fst (search_step e ag step st0 lg0) = Inr None \<longrightarrow>
        fst (search_loop e ag (step # steps) st0 lg0) = Inr st0
        \<and> searches (snd (search_step e ag step st0 lg0)) = searches lg0)"
proof (intro conjI impI)
  assume "fst (run e ag a b lg) = Inr st"
  then have r: "run e ag a b lg = (Inr st, snd (run e ag a b lg))"
    by (simp add: prod_eq_iff)
  from run_result[OF r]
  show "revision_count st = (if use_diffusion ag then int (length (search_history st)) else 0)"
    and "length (search_history st) = searches (snd (run e ag a b lg)) - searches lg"
    by simp_all
next
  assume "fst (initial_draft_stage e ag st0 lg0) = Inr st1"
  then have "initial_draft_stage e ag st0 lg0 = (Inr st1, snd (initial_draft_stage e ag st0 lg0))"
    by (simp add: prod_eq_iff)
  from initial_draft_stage_frame[OF this] show "revision_count st1 = revision_count st0"
    by simp
next
  assume "fst (search_step e ag step st0 lg0) = Inr (Some st2)"
  then have "search_step e ag step st0 lg0 = (Inr (Some st2), snd (search_step e ag step st0 lg0))"
    by (simp add: prod_eq_iff)
  from search_step_searches[OF this]
  show "revision_count st2 = revision_count st0 + (if use_diffusion ag then 1 else 0)"
    and "searches (snd (search_step e ag step st0 lg0)) = Suc (searches lg0)"
    by simp_all
next
  assume a: "fst (search_step e ag step st0 lg0) = Inr None"
  then have s: "search_step e ag step st0 lg0 = (Inr None, snd (search_step e ag step st0 lg0))"
    by (simp add: prod_eq_iff)
  from search_step_searches[OF s]
  show "searches (snd (search_step e ag step st0 lg0)) = searches lg0"
    by simp
  obtain lg1 where "search_step e ag step st0 lg0 = (Inr None, lg1)"
    using s by blast
  then have "search_loop e ag (step # steps) st0 lg0 = (Inr st0, lg1)"
    by simp
  then show "fst (search_loop e ag (step # steps) st0 lg0) = Inr st0"
    by simp
qed

lemma sample_state_plan: "plan sample_state = default_plan (lit ''1 Main St'')"
  by (simp add: sample_state_def)

text \<open>
  A run of the one-step agent in the asking environment, with one completed pass; the
  initial draft stage and a completed pass in that environment; a pass that ends the loop.
\<close>

theorem revision_count_after_run_witness:
  "fst (run asking_env sample_agent (lit ''1 Main St'') [] [])
     = Inr ((asked_once (sample_state\<lparr>draft_report := lit ''Zoning?''\<rparr>))\<lparr>final_report := lit ''Zoning?''\<rparr>)
   \<and> use_diffusion sample_agent
   \<and> revision_count ((asked_once (sample_state\<lparr>draft_report := lit ''Zoning?''\<rparr>))\<lparr>final_report := lit ''Zoning?''\<rparr>) = 1
   \<and> length (search_history ((asked_once (sample_state\<lparr>draft_report := lit ''Zoning?''\<rparr>))\<lparr>final_report := lit ''Zoning?''\<rparr>)) = 1
   \<and> searches (snd (run asking_env sample_agent (lit ''1 Main St'') [] [])) - searches [] = 1
   \<and> fst (initial_draft_stage asking_env sample_agent started_state [])
       = Inr (started_state\<lparr>draft_report := lit ''Zoning?''\<rparr>)
   \<and> revision_count (started_state\<lparr>draft_report := lit ''Zoning?''\<rparr>) = revision_count started_state
   \<and> fst (search_step asking_env sample_agent 0 started_state []) = Inr (Some (asked_once started_state))
   \<and> revision_count (asked_once started_state) = revision_count started_state + 1
   \<and> fst (search_step finished_env sample_agent 0 sample_state []) = Inr None
   \<and> fst (search_loop finished_env sample_agent [0, 1] sample_state []) = Inr sample_state"
proof -
  note thm1 = revision_count_after_run[where e = asking_env and ag = sample_agent
      and a = "lit ''1 Main St''" and b = "[]" and lg = "[]"
      and st = "(asked_once (sample_state\<lparr>draft_report := lit ''Zoning?''\<rparr>))\<lparr>final_report := lit ''Zoning?''\<rparr>"
      and ?st0.0 = started_state and ?lg0.0 = "[]" and step = 0
      and ?st1.0 = "started_state\<lparr>draft_report := lit ''Zoning?''\<rparr>"
      and ?st2.0 = "asked_once started_state"]
  note thm2 = revision_count_after_run[where e = finished_env and ag = sample_agent
      and ?st0.0 = sample_state and ?lg0.0 = "[]" and step = 0 and steps = "[1]"]
  have d: "use_diffusion sample_agent"
    by (simp add: sample_agent_def)
  have n: "fst (search_step finished_env sample_agent 0 sample_state []) = Inr None"
    by (simp add: search_step_finished[OF sample_state_plan])
  have s: "searches (snd (run asking_env sample_agent (lit ''1 Main St'') [] [])) - searches [] = 1"
    by (simp add: run_sample searches_def is_search_def)
  have r: "fst (run asking_env sample_agent (lit ''1 Main St'') [] [])
     = Inr ((asked_once (sample_state\<lparr>draft_report := lit ''Zoning?''\<rparr>))\<lparr>final_report := lit ''Zoning?''\<rparr>)"
    by (simp add: run_sample)
  from thm1 thm2 d n s r initial_draft_sample search_step_sample show ?thesis
    by simp
qed

text \<open>
  The claim as it was stated adds one for the initial draft.  In the run above the initial
  draft stage ran and one pass was completed, and the counter is 1, not 2.
\<close>

theorem revision_count_counterexample:
  "use_diffusion sample_agent
   \<and> fst (run asking_env sample_agent (lit ''1 Main St'') [] [])
       = Inr ((asked_once (sample_state\<lparr>draft_report := lit ''Zoning?''\<rparr>))\<lparr>final_report := lit ''Zoning?''\<rparr>)
   \<and> length (search_history ((asked_once (sample_state\<lparr>draft_report := lit ''Zoning?''\<rparr>))\<lparr>final_report := lit ''Zoning?''\<rparr>)) = 1
   \<and> revision_count ((asked_once (sample_state\<lparr>draft_report := lit ''Zoning?''\<rparr>))\<lparr>final_report := lit ''Zoning?''\<rparr>) = 1
   \<and> revision_count ((asked_once (sample_state\<lparr>draft_report := lit ''Zoning?''\<rparr>))\<lparr>final_report := lit ''Zoning?''\<rparr>) \<noteq> 1 + 1"
proof -
  have "use_diffusion sample_agent"
    by (simp add: sample_agent_def)
  moreover have "fst (run asking_env sample_agent (lit ''1 Main St'') [] [])
       = Inr ((asked_once (sample_state\<lparr>draft_report := lit ''Zoning?''\<rparr>))\<lparr>final_report := lit ''Zoning?''\<rparr>)"
    by (simp add: run_sample)
  moreover have "length (search_history ((asked_once (sample_state\<lparr>draft_report := lit ''Zoning?''\<rparr>))\<lparr>final_report := lit ''Zoning?''\<rparr>)) = 1"
    and "revision_count ((asked_once (sample_state\<lparr>draft_report := lit ''Zoning?''\<rparr>))\<lparr>final_report := lit ''Zoning?''\<rparr>) = 1"
    by (simp_all add: asked_once_def update_draft_def add_search_result_def
          sample_state_def new_AgentState_def)
  ultimately show ?thesis
    by simp
qed

subsection \<open>Leaving the loop\<close>







lemma sample_env_services:
  "llm (sample_env f) = f"
  "web_search_tool (sample_env f) lg q = lit ''results for '' @ q"
  "vector_store (sample_env f) = None"
  "clock (sample_env f) lg = lit ''2024-01-01T00:00:00''"
  "json_loads (sample_env f) = sample_json_loads"
  "ucd (sample_env f) = sample_ucd"
  by (simp_all add: sample_env_def)








subsection \<open>The question prompt\<close>

lemma enumerate_from_length: "length (enumerate_from k xs) = length xs"
  by (induction xs arbitrary: k) auto

lemma enumerate_from_nth: "i < length xs \<Longrightarrow> enumerate_from k xs ! i = (k + i, xs ! i)"
proof (induction xs arbitrary: k i)
  case Nil
  then show ?case by simp
next
  case (Cons x xs)
  then show ?case by (cases i) auto
qed

lemma join_Nil_iff: "join sep xs = [] \<longleftrightarrow> (\<forall>x \<in> set xs. x = []) \<and> (sep = [] \<or> length xs \<le> 1)"
  by (induction sep xs rule: join.induct) auto

lemma previous_lines_length:
  "length (previous_lines st) = min 5 (length (search_history st))"
  by (auto simp: previous_lines_def enumerate_from_length last_n_def)

lemma previous_lines_nth:
  assumes "i < length (previous_lines st)"
  shows "previous_lines st ! i =
     show_nat (i + 1) @ lit ''. ''
       @ question (search_history st ! (length (search_history st) - length (previous_lines st) + i))"
proof -
  from assms have i: "i < length (last_n 5 (search_history st))"
    by (simp add: previous_lines_def enumerate_from_length)
  have l: "length (previous_lines st) = length (last_n 5 (search_history st))"
    by (simp add: previous_lines_def enumerate_from_length)
  from i have "last_n 5 (search_history st) ! i
      = search_history st ! (length (search_history st) - length (last_n 5 (search_history st)) + i)"
    by (auto simp: last_n_def)
  with i l show ?thesis
    by (simp add: previous_lines_def enumerate_from_length enumerate_from_nth)
qed

lemma previous_questions_None:
  "previous_questions st =
     (if search_history st = [] then lit ''None'' else join (lit ''\<newline>'') (previous_lines st))"
proof (cases "search_history st = []")
  case True
  then show ?thesis
    by (simp add: previous_questions_def previous_lines_def last_n_def)
next
  case False
  then have "0 < length (search_history st)"
    by simp
  then have "0 < length (previous_lines st)"
    unfolding previous_lines_length by (simp add: min_def)
  then have "previous_lines st \<noteq> []"
    by auto
  moreover have "\<forall>x \<in> set (previous_lines st). x \<noteq> []"
    by (auto simp: previous_lines_def lit_def)
  ultimately have "join (lit ''\<newline>'') (previous_lines st) \<noteq> []"
    by (cases "previous_lines st") (auto simp: join_Nil_iff)
  with False show ?thesis
    by (simp add: previous_questions_def Let_def)
qed

text \<open>
  Claim C7, amended.  In the direct variant the question call sends the address, the
  formatted plan, and two texts made from the state.  The first is made of the last five
  questions of the search history, or of all of them when there are fewer, in the order of
  the history, the oldest of them first: one line for each, numbered from 1, and line
  \<open>i\<close> holds the question \<open>i\<close> places after the start of this window; when the history
  is empty the text is \<open>None\<close>.  The second is the first 500 characters of the current
  draft, or \<open>No draft\<close> when the draft is empty.
\<close>

theorem question_prompt_window:
  "slots (search_question_request st p)
     = [(''address'', query st), (''plan'', p), (''previous'', previous_questions st),
        (''draft'', draft_snapshot st)]
   \<and> previous_questions st
       = (if search_history st = [] then lit ''None''
          else join (lit ''\<newline>'') (previous_lines st))
   \<and> length (previous_lines st) = min 5 (length (search_history st))
   \<and> (\<forall>i < length (previous_lines st).
         previous_lines st ! i =
           show_nat (i + 1) @ lit ''. ''
             @ question (search_history st
                          ! (length (search_history st) - length (previous_lines st) + i)))
   \<and> draft_snapshot st
       = (if draft_report st = [] then lit ''No draft'' else take 500 (draft_report st))
   \<and> (format_plan e (plan st) = Inr p \<longrightarrow>
        generate_search_question e st lg =
          (Inr (strip (ucd e) (llm e lg (search_question_request st p))),
           lg @ [Generated (search_question_request st p)
                   (llm e lg (search_question_request st p))]))"
proof (intro conjI impI allI)
  show "slots (search_question_request st p)
     = [(''address'', query st), (''plan'', p), (''previous'', previous_questions st),
        (''draft'', draft_snapshot st)]"
    by (simp add: search_question_request_def)
next
  show "previous_questions st
       = (if search_history st = [] then lit ''None''
          else join (lit ''\<newline>'') (previous_lines st))"
    by (rule previous_questions_None)
next
  show "length (previous_lines st) = min 5 (length (search_history st))"
    by (rule previous_lines_length)
next
  fix i assume "i < length (previous_lines st)"
  then show "previous_lines st ! i =
           show_nat (i + 1) @ lit ''. ''
             @ question (search_history st
                          ! (length (search_history st) - length (previous_lines st) + i))"
    by (rule previous_lines_nth)
next
  show "draft_snapshot st
       = (if draft_report st = [] then lit ''No draft'' else take 500 (draft_report st))"
    by (simp add: draft_snapshot_def)
next
  assume "format_plan e (plan st) = Inr p"
  then show "generate_search_question e st lg =
          (Inr (strip (ucd e) (llm e lg (search_question_request st p))),
           lg @ [Generated (search_question_request st p)
                   (llm e lg (search_question_request st p))])"
    by (simp add: generate_search_question_def invoke_model_def Let_def)
qed

lemma twice_asked_facts:
  "plan twice_asked_state = default_plan (lit ''1 Main St'')"
  "map question (search_history twice_asked_state) = [lit ''first'', lit ''second'']"
  "draft_report twice_asked_state = replicate 501 (ord CHR ''x'')"
  by (simp_all add: twice_asked_state_def sample_state_def)

lemma twice_asked_lines:
  "previous_lines twice_asked_state = [lit ''1. first'', lit ''2. second'']"
  by (simp add: previous_lines_def twice_asked_state_def last_n_def show_nat.simps lit_def ord_def)

text \<open>
  A state with two recorded searches and a draft of 501 characters: the two lines, the call,
  and a snapshot of 500 characters.
\<close>

theorem question_prompt_window_witness:
  "format_plan asking_env (plan twice_asked_state)
     = Inr (lit ''1. General Research\<newline>   - '' @ lit ''1 Main St'')
   \<and> generate_search_question asking_env twice_asked_state [] =
       (Inr (lit ''Zoning?''),
        [Generated (search_question_request twice_asked_state
                      (lit ''1. General Research\<newline>   - '' @ lit ''1 Main St''))
           (lit ''Zoning?'')])
   \<and> length (previous_lines twice_asked_state) = 2
   \<and> previous_lines twice_asked_state ! 0 = lit ''1. first''
   \<and> previous_lines twice_asked_state ! 1 = lit ''2. second''
   \<and> previous_questions twice_asked_state = lit ''1. first\<newline>2. second''
   \<and> draft_snapshot twice_asked_state = replicate 500 (ord CHR ''x'')"
proof -
  have fp: "format_plan asking_env (plan twice_asked_state)
     = Inr (lit ''1. General Research\<newline>   - '' @ lit ''1 Main St'')"
    by (simp add: twice_asked_facts format_plan_sample)
  have j: "lit ''1. first'' @ lit ''\<newline>'' @ lit ''2. second''
      = lit ''1. first\<newline>2. second''"
    by (simp add: lit_def)
  have h: "search_history twice_asked_state \<noteq> []"
    using twice_asked_facts(2) by auto
  from question_prompt_window[where e = asking_env and st = twice_asked_state and lg = "[]"
      and p = "lit ''1. General Research\<newline>   - '' @ lit ''1 Main St''"] fp h
  show ?thesis
    by (simp add: twice_asked_lines twice_asked_facts j asking_env_services asking_env_library
          strip_Zoning)
qed

text \<open>
  The claim as it was stated puts the most recent question first.  With the questions
  \<open>first\<close> and \<open>second\<close> recorded in this order, the text lists \<open>first\<close> before
  \<open>second\<close>.
\<close>

theorem question_prompt_window_counterexample:
  "map question (search_history twice_asked_state) = [lit ''first'', lit ''second'']
   \<and> previous_questions twice_asked_state = lit ''1. first\<newline>2. second''
   \<and> previous_questions twice_asked_state \<noteq> lit ''1. second\<newline>2. first''"
proof -
  have "previous_questions twice_asked_state = lit ''1. first\<newline>2. second''"
    by (simp add: previous_questions_def twice_asked_lines Let_def lit_def)
  then show ?thesis
    by (simp add: twice_asked_facts lit_eq_iff)
qed

subsection \<open>The planner\<close>

lemma generate_plan_fallback:
  assumes "json_loads e (llm e lg (plan_request (lit ''Address: '' @ q @ (if b \<noteq> [] then lit ''\<newline>Brief: '' @ b else [])))) = None"
    and "ord CHR ''{'' \<notin> set (llm e lg (plan_request (lit ''Address: '' @ q @ (if b \<noteq> [] then lit ''\<newline>Brief: '' @ b else []))))"
  shows "fst (generate_plan e q b lg) = Inr (default_plan q)"
  using assms
  by (simp add: generate_plan_def invoke_model_def Let_def find_char_def)

text \<open>
  Claim C4 does not hold of the code.  When the model's reply is not JSON and has braces,
  the planner decodes the text from the first opening brace to the last closing brace, and
  this second \<open>json.loads\<close> stands in the \<open>except\<close> block, where nothing catches what
  it raises.  For the reply \<open>{x}\<close> the text between the braces is the reply itself, which
  is not JSON, and \<open>generate_plan\<close> raises \<open>JSONDecodeError\<close>; the run of the agent ends
  with this exception at the planning stage.
\<close>

theorem generate_plan_raises:
  "llm braces_env [] (plan_request (lit ''Address: 1 Main St'')) = lit ''{x}''
   \<and> json_loads braces_env (lit ''{x}'') = None
   \<and> slice (lit ''{x}'') (find_char (lit ''{x}'') (ord CHR ''{''))
         (rfind_char (lit ''{x}'') (ord CHR ''}'') + 1) = lit ''{x}''
   \<and> fst (generate_plan braces_env (lit ''1 Main St'') [] []) = Inl JSONDecodeError
   \<and> fst (run braces_env sample_agent (lit ''1 Main St'') [] []) = Inl JSONDecodeError"
proof -
  have 1: "llm braces_env lg r = lit ''{x}''" "json_loads braces_env = sample_json_loads" for lg r
    by (simp_all add: braces_env_def sample_env_services)
  have 2: "sample_json_loads (lit ''{x}'') = None"
    by (simp add: sample_json_loads_def lit_eq_iff)
  have 3: "find_char (lit ''{x}'') (ord CHR ''{'') = 0" "rfind_char (lit ''{x}'') (ord CHR ''}'') = 2"
    by (simp_all add: find_char_def rfind_char_def lit_def ord_def)
  have 4: "slice (lit ''{x}'') 0 3 = lit ''{x}''"
    by (simp add: slice_def lit_def)
  have 5: "fst (generate_plan braces_env (lit ''1 Main St'') [] []) = Inl JSONDecodeError"
    by (simp add: generate_plan_def invoke_model_def Let_def 1 2 3 4)
  then obtain lg1 where "generate_plan braces_env (lit ''1 Main St'') [] [] = (Inl JSONDecodeError, lg1)"
    by (cases "generate_plan braces_env (lit ''1 Main St'') [] []") simp
  then have "fst (run braces_env sample_agent (lit ''1 Main St'') [] []) = Inl JSONDecodeError"
    by (simp add: run_def)
  with 1 2 3 4 5 show ?thesis
    by simp
qed

subsection \<open>Self-evolution in the two variants\<close>

lemma direct_evolution_cadence:
  assumes "format_plan e (plan st) = Inr p"
    and "q = strip (ucd e) (llm e lg (search_question_request st p))"
    and "\<not> (q = [] \<or> q = lit ''DONE'')"
    and "search_and_answer e q st
           (lg @ [Generated (search_question_request st p) (llm e lg (search_question_request st p))])
         = (a, lg2)"
    and "fst (search_step e ag step st lg) = Inr (Some st1)"
  shows "answer (last (search_history st1)) =
     (if use_self_evolution ag \<and> step mod 3 = 0 then fst (evolve_answer e q a 2 1 lg2) else a)"
  using assms
  by (auto simp: search_step_def generate_search_question_def invoke_model_def Let_def
        add_search_result_def update_draft_def read_clock_def denoise_draft_def
        split: prod.splits if_splits)


end
